theory Spec2Isabelle
  imports Complex_Main "HOL-Library.Monad_Syntax" "HOL-Library.Sublist"
begin

section \<open>CodeCheckup: line alignment and character similarity\<close>

text \<open>
  A shallow embedding of \<^verbatim>\<open>src/store/useCodeStore.ts\<close> (\<^verbatim>\<open>computeLineDiff\<close>,
  \<^verbatim>\<open>calculateSimilarity\<close>, \<^verbatim>\<open>compareCode\<close>, \<^verbatim>\<open>saveToHistory\<close>) and of the
  \<^verbatim>\<open>lineDiffs\<close> memo of \<^verbatim>\<open>src/components/CodeEditor.tsx\<close>.

  Conventions of the model.
  \<^item> A JavaScript string is a \<open>string\<close>; the alphabet is the code units \<open>0x00\<close> to
    \<open>0xFF\<close>, and \<open>length\<close> is \<^verbatim>\<open>.length\<close>.
  \<^item> An array is a list. A read \<^verbatim>\<open>xs[k]\<close> is \<open>elem_at xs k\<close>, which is \<open>None\<close>
    (\<^verbatim>\<open>undefined\<close>) outside the array.
  \<^item> A function that can throw returns an \<open>option\<close>; \<open>None\<close> is the exception
    (a \<^verbatim>\<open>TypeError\<close> from a method call on \<^verbatim>\<open>undefined\<close>).
  \<^item> The lengths \<^verbatim>\<open>equalLength\<close> and \<^verbatim>\<open>totalLength\<close> are naturals and their
    quotient is a rational. The source divides two doubles and compares the quotient
    with the literal \<^verbatim>\<open>0.3\<close>; rounding to nearest is monotone and both sides are
    rounded from the exact values, so for lengths below \<open>2^50\<close> (far above the longest
    string an engine allocates) the double comparison and the exact one agree.
  \<^item> The library \<^verbatim>\<open>diff-match-patch\<close> is not part of the repository. Its two
    methods used by the source are the fields of the record \<open>DiffMatchPatch\<close>, a
    parameter of every function that reaches them.
\<close>

subsection \<open>Arrays and strings\<close>

definition elem_at :: "'a list \<Rightarrow> nat \<Rightarrow> 'a option" where
  "elem_at xs k = (if k < length xs then Some (xs ! k) else None)"

text \<open>
  \<^verbatim>\<open>String.prototype.trim\<close> removes white space and line terminators from both ends.
  Within the alphabet of the model these are TAB, LF, VT, FF, CR, SP and NBSP.
\<close>

definition is_white_space :: "char \<Rightarrow> bool" where
  "is_white_space c = ((of_char c :: nat) \<in> set [0x09, 0x0A, 0x0B, 0x0C, 0x0D, 0x20, 0xA0])"

definition trim :: "string \<Rightarrow> string" where
  "trim s = rev (dropWhile is_white_space (rev (dropWhile is_white_space s)))"

text \<open>
  \<^verbatim>\<open>s.split('\n')\<close>: the pieces between line feeds; the empty string gives one empty
  piece, and a trailing line feed gives a last empty piece.
\<close>

fun split_lines :: "string \<Rightarrow> string list" where
  "split_lines [] = [[]]"
| "split_lines (c # cs) =
     (if c = CHR 0x0A then [] # split_lines cs
      else (case split_lines cs of
              [] \<Rightarrow> [[c]]
            | l # ls \<Rightarrow> (c # l) # ls))"

subsection \<open>The character diff library and the similarity score\<close>

text \<open>
  A diff of the library is a pair \<^verbatim>\<open>[type, text]\<close> with type \<open>-1\<close> (delete), \<open>0\<close>
  (equal) or \<open>1\<close> (insert). \<^verbatim>\<open>diff_cleanupSemantic\<close> rewrites its argument in place;
  here it returns the rewritten array.
\<close>

type_synonym Diff = "int \<times> string"

record DiffMatchPatch =
  diff_main :: "string \<Rightarrow> string \<Rightarrow> Diff list"
  diff_cleanupSemantic :: "Diff list \<Rightarrow> Diff list"

text \<open>The two library calls that both source files make in the same order.\<close>

definition char_diff :: "DiffMatchPatch \<Rightarrow> string \<Rightarrow> string \<Rightarrow> Diff list" where
  "char_diff dmp str1 str2 = diff_cleanupSemantic dmp (diff_main dmp str1 str2)"

text \<open>
  The \<^verbatim>\<open>forEach\<close> of \<^verbatim>\<open>calculateSimilarity\<close>, on the pair
  \<open>(totalLength, equalLength)\<close>.
\<close>

fun count_lengths :: "Diff list \<Rightarrow> nat \<times> nat \<Rightarrow> nat \<times> nat" where
  "count_lengths [] acc = acc"
| "count_lengths ((type, text) # rest) (totalLength, equalLength) =
     count_lengths rest
       (totalLength + length text,
        if type = 0 then equalLength + length text else equalLength)"

definition calculateSimilarity :: "DiffMatchPatch \<Rightarrow> string \<Rightarrow> string \<Rightarrow> rat" where
  "calculateSimilarity dmp str1 str2 =
     (let (totalLength, equalLength) = count_lengths (char_diff dmp str1 str2) (0, 0)
      in if totalLength > 0 then of_nat equalLength / of_nat totalLength else 0)"

subsection \<open>Line diff entries\<close>

datatype DiffType = Equal | Insert | Delete | Modify

record LineDiffResult =
  type :: DiffType
  originalLine :: "string option"
  modifiedLine :: "string option"
  originalIndex :: "nat option"
  modifiedIndex :: "nat option"

subsection \<open>The LCS table\<close>

text \<open>
  \<^verbatim>\<open>Array(m + 1).fill(null).map(() => Array(n + 1).fill(0))\<close>
\<close>

definition dp_init :: "nat \<Rightarrow> nat \<Rightarrow> nat list list" where
  "dp_init m n = replicate (m + 1) (replicate (n + 1) 0)"

text \<open>
  \<open>dp_read\<close> is \<^verbatim>\<open>dp[i][j]\<close> as a value and \<open>dp_write\<close> is \<^verbatim>\<open>dp[i][j] = v\<close>. A read
  or write outside the table is \<open>None\<close>: the model stops there. (JavaScript throws when
  the row is missing, and otherwise goes on with \<^verbatim>\<open>undefined\<close> or a longer row;
  \<open>dp_fill_shape\<close> and \<open>computeLineDiff_inv\<close> below show that the table is never left.)
\<close>

definition dp_read :: "nat list list \<Rightarrow> nat \<Rightarrow> nat \<Rightarrow> nat option" where
  "dp_read dp i j = do { row \<leftarrow> elem_at dp i; elem_at row j }"

definition dp_write :: "nat list list \<Rightarrow> nat \<Rightarrow> nat \<Rightarrow> nat \<Rightarrow> nat list list option" where
  "dp_write dp i j v =
     do { row \<leftarrow> elem_at dp i;
          if j < length row then Some (dp[i := row[j := v]]) else None }"

text \<open>The body of the inner loop.\<close>

definition dp_cell ::
  "string list \<Rightarrow> string list \<Rightarrow> nat list list \<Rightarrow> nat \<Rightarrow> nat \<Rightarrow> nat list list option" where
  "dp_cell originalLines modifiedLines dp i j =
     do { a \<leftarrow> elem_at originalLines (i - 1);
          b \<leftarrow> elem_at modifiedLines (j - 1);
          if trim a = trim b
          then do { d \<leftarrow> dp_read dp (i - 1) (j - 1);
                    dp_write dp i j (d + 1) }
          else do { u \<leftarrow> dp_read dp (i - 1) j;
                    l \<leftarrow> dp_read dp i (j - 1);
                    dp_write dp i j (max u l) } }"

text \<open>\<^verbatim>\<open>for (let j = ...; j <= n; j++)\<close>, entered with \<open>j = 1\<close>.\<close>

function dp_row ::
  "string list \<Rightarrow> string list \<Rightarrow> nat list list \<Rightarrow> nat \<Rightarrow> nat \<Rightarrow> nat \<Rightarrow> nat list list option" where
  "dp_row originalLines modifiedLines dp i j n =
     (if j \<le> n
      then (case dp_cell originalLines modifiedLines dp i j of
              None \<Rightarrow> None
            | Some dp' \<Rightarrow> dp_row originalLines modifiedLines dp' i (j + 1) n)
      else Some dp)"
  by pat_completeness auto
termination
  by (relation "measure (\<lambda>(ol, ml, dp, i, j, n). n + 1 - j)") auto

text \<open>\<^verbatim>\<open>for (let i = ...; i <= m; i++)\<close>, entered with \<open>i = 1\<close>.\<close>

function dp_fill ::
  "string list \<Rightarrow> string list \<Rightarrow> nat list list \<Rightarrow> nat \<Rightarrow> nat \<Rightarrow> nat \<Rightarrow> nat list list option" where
  "dp_fill originalLines modifiedLines dp i m n =
     (if i \<le> m
      then (case dp_row originalLines modifiedLines dp i 1 n of
              None \<Rightarrow> None
            | Some dp' \<Rightarrow> dp_fill originalLines modifiedLines dp' (i + 1) m n)
      else Some dp)"
  by pat_completeness auto
termination
  by (relation "measure (\<lambda>(ol, ml, dp, i, m, n). m + 1 - i)") auto

subsection \<open>Backtracking\<close>

text \<open>
  One pass through the body of \<^verbatim>\<open>while (i > 0 || j > 0)\<close>, from the loop state
  \<open>(i, j, result)\<close> to the next one; \<^verbatim>\<open>result.unshift(e)\<close> is \<open>e # result\<close>.
\<close>

definition backtrack_step ::
  "DiffMatchPatch \<Rightarrow> string list \<Rightarrow> string list \<Rightarrow> nat list list \<Rightarrow>
   nat \<Rightarrow> nat \<Rightarrow> LineDiffResult list \<Rightarrow> (nat \<times> nat \<times> LineDiffResult list) option" where
  "backtrack_step dmp originalLines modifiedLines dp i j result =
     (if i > 0 \<and> j > 0 then
        do { a \<leftarrow> elem_at originalLines (i - 1);
             b \<leftarrow> elem_at modifiedLines (j - 1);
             if trim a = trim b then
               Some (i - 1, j - 1,
                 \<lparr>type = Equal, originalLine = Some a, modifiedLine = Some b,
                  originalIndex = Some (i - 1), modifiedIndex = Some (j - 1)\<rparr> # result)
             else if calculateSimilarity dmp a b > 3 / 10 then
               Some (i - 1, j - 1,
                 \<lparr>type = Modify, originalLine = Some a, modifiedLine = Some b,
                  originalIndex = Some (i - 1), modifiedIndex = Some (j - 1)\<rparr> # result)
             else
               do { u \<leftarrow> dp_read dp (i - 1) j;
                    l \<leftarrow> dp_read dp i (j - 1);
                    if u > l then
                      Some (i - 1, j,
                        \<lparr>type = Delete, originalLine = Some a, modifiedLine = None,
                         originalIndex = Some (i - 1), modifiedIndex = None\<rparr> # result)
                    else
                      Some (i, j - 1,
                        \<lparr>type = Insert, originalLine = None, modifiedLine = Some b,
                         originalIndex = None, modifiedIndex = Some (j - 1)\<rparr> # result) } }
      else if i > 0 then
        Some (i - 1, j,
          \<lparr>type = Delete, originalLine = elem_at originalLines (i - 1), modifiedLine = None,
           originalIndex = Some (i - 1), modifiedIndex = None\<rparr> # result)
      else
        Some (i, j - 1,
          \<lparr>type = Insert, originalLine = None, modifiedLine = elem_at modifiedLines (j - 1),
           originalIndex = None, modifiedIndex = Some (j - 1)\<rparr> # result))"

lemma backtrack_step_decreases:
  "i > 0 \<or> j > 0 \<Longrightarrow>
   backtrack_step dmp originalLines modifiedLines dp i j result = Some (i', j', result') \<Longrightarrow>
   i' + j' < i + j"
  by (auto simp: backtrack_step_def split: if_splits bind_splits)

function backtrack ::
  "DiffMatchPatch \<Rightarrow> string list \<Rightarrow> string list \<Rightarrow> nat list list \<Rightarrow>
   nat \<Rightarrow> nat \<Rightarrow> LineDiffResult list \<Rightarrow> LineDiffResult list option" where
  "backtrack dmp originalLines modifiedLines dp i j result =
     (if i > 0 \<or> j > 0
      then (case backtrack_step dmp originalLines modifiedLines dp i j result of
              None \<Rightarrow> None
            | Some (i', j', result') \<Rightarrow>
                backtrack dmp originalLines modifiedLines dp i' j' result')
      else Some result)"
  by pat_completeness auto
termination
proof (relation "measure (\<lambda>(dmp, ol, ml, dp, i, j, res). i + j)")
  show "wf (measure (\<lambda>(dmp, ol, ml, dp, i, j, res). i + j))"
    by simp
next
  fix dmp :: DiffMatchPatch
  fix originalLines modifiedLines :: "string list"
  fix dp :: "nat list list"
  fix i j :: nat
  fix result :: "LineDiffResult list"
  fix x2 x y xa ya
  assume "0 < i \<or> 0 < j"
    and "backtrack_step dmp originalLines modifiedLines dp i j result = Some x2"
    and "(x, y) = x2" and "(xa, ya) = y"
  then have "x + xa < i + j"
    using backtrack_step_decreases [of i j dmp originalLines modifiedLines dp result x xa ya]
    by simp
  then show "((dmp, originalLines, modifiedLines, dp, x, xa, ya),
              (dmp, originalLines, modifiedLines, dp, i, j, result))
             \<in> measure (\<lambda>(dmp, ol, ml, dp, i, j, res). i + j)"
    by simp
qed

definition computeLineDiff ::
  "DiffMatchPatch \<Rightarrow> string list \<Rightarrow> string list \<Rightarrow> LineDiffResult list option" where
  "computeLineDiff dmp originalLines modifiedLines =
     (let m = length originalLines;
          n = length modifiedLines
      in do { dp \<leftarrow> dp_fill originalLines modifiedLines (dp_init m n) 1 m n;
              backtrack dmp originalLines modifiedLines dp m n [] })"

subsection \<open>The store: \<^verbatim>\<open>compareCode\<close> and \<^verbatim>\<open>saveToHistory\<close>\<close>

record HistoryRecord =
  record_id :: string
  timestamp :: nat
  original :: string
  modified :: string
  lang :: string

text \<open>
  The state of the store. The writes of \<^verbatim>\<open>saveToHistory\<close> to \<^verbatim>\<open>localStorage\<close> do not
  touch the store and are not modelled.
\<close>

record CodeStore =
  originalCode :: string
  modifiedCode :: string
  diffLines :: "nat list"
  lineDiffs :: "LineDiffResult list"
  history :: "HistoryRecord list"
  isComparing :: bool
  selectedLanguage :: string
  isDarkMode :: bool

text \<open>\<^verbatim>\<open>n.toString()\<close> of a natural number: its decimal digits.\<close>

fun toString :: "nat \<Rightarrow> string" where
  "toString n =
     (if n < 10 then [char_of (48 + n)]
      else toString (n div 10) @ [char_of (48 + n mod 10)])"

text \<open>
  \<^verbatim>\<open>saveToHistory\<close> reads the clock twice, for the id and for the timestamp; the two
  readings are the parameters \<open>now_id\<close> and \<open>now_ts\<close>.
\<close>

definition saveToHistory :: "nat \<Rightarrow> nat \<Rightarrow> CodeStore \<Rightarrow> CodeStore" where
  "saveToHistory now_id now_ts st =
     (if trim (originalCode st) = [] \<and> trim (modifiedCode st) = [] then st
      else
        let newRecord = \<lparr>record_id = toString now_id, timestamp = now_ts,
                          original = originalCode st, modified = modifiedCode st,
                          lang = selectedLanguage st\<rparr>
        in st\<lparr>history := take 20 (newRecord # history st)\<rparr>)"

text \<open>
  The \<^verbatim>\<open>forEach\<close> of \<^verbatim>\<open>compareCode\<close> over \<^verbatim>\<open>(item, index)\<close>, pushing
  \<^verbatim>\<open>index + 1\<close> for every entry that is not equal.
\<close>

fun push_diffLines :: "LineDiffResult list \<Rightarrow> nat \<Rightarrow> nat list \<Rightarrow> nat list" where
  "push_diffLines [] index acc = acc"
| "push_diffLines (item # items) index acc =
     push_diffLines items (index + 1)
       (if type item \<noteq> Equal then acc @ [index + 1] else acc)"

text \<open>
  \<^verbatim>\<open>compareCode\<close>. An exception of the \<^verbatim>\<open>try\<close> block only resets
  \<^verbatim>\<open>isComparing\<close>. \<^verbatim>\<open>[...new Set(diffLines)].sort((a, b) => a - b)\<close> removes
  duplicates and sorts ascending.
\<close>

definition compareCode :: "DiffMatchPatch \<Rightarrow> nat \<Rightarrow> nat \<Rightarrow> CodeStore \<Rightarrow> CodeStore" where
  "compareCode dmp now_id now_ts st0 =
     (let st = st0\<lparr>isComparing := True\<rparr>;
          originalLines = split_lines (originalCode st);
          modifiedLines = split_lines (modifiedCode st)
      in case computeLineDiff dmp originalLines modifiedLines of
           None \<Rightarrow> st\<lparr>isComparing := False\<rparr>
         | Some diffResult \<Rightarrow>
             saveToHistory now_id now_ts
               (st\<lparr>diffLines := sort (remdups (push_diffLines diffResult 0 [])),
                    lineDiffs := diffResult,
                    isComparing := False\<rparr>))"

subsection \<open>The editor: character diffs for highlighting\<close>

text \<open>\<^verbatim>\<open>lines[i] || ''\<close>: a missing line reads as the empty string.\<close>

definition line_or_empty :: "string list \<Rightarrow> nat \<Rightarrow> string" where
  "line_or_empty lines i = (case elem_at lines i of None \<Rightarrow> [] | Some s \<Rightarrow> s)"

text \<open>
  The \<^verbatim>\<open>for\<close> loop of the \<^verbatim>\<open>lineDiffs\<close> memo of \<^verbatim>\<open>CodeEditor\<close>. The array
  \<^verbatim>\<open>diffs\<close> is written at index \<open>i\<close> only where the two lines differ, so it has holes:
  it is a map from indices to diffs (\<open>diffs'\<close>, as \<open>diffs\<close> is a constant of the library).
\<close>

function editor_loop ::
  "DiffMatchPatch \<Rightarrow> string list \<Rightarrow> string list \<Rightarrow> nat \<Rightarrow> nat \<Rightarrow>
   (nat \<rightharpoonup> Diff list) \<Rightarrow> (nat \<rightharpoonup> Diff list)" where
  "editor_loop dmp currentLines otherLines maxLines i diffs' =
     (if i < maxLines then
        (let currentLine = line_or_empty currentLines i;
             otherLine = line_or_empty otherLines i
         in editor_loop dmp currentLines otherLines maxLines (i + 1)
              (if currentLine \<noteq> otherLine
               then diffs'(i \<mapsto> char_diff dmp currentLine otherLine)
               else diffs'))
      else diffs')"
  by pat_completeness auto
termination
  by (relation "measure (\<lambda>(dmp, cl, ol, maxLines, i, ds). maxLines - i)") auto

text \<open>
  The memo \<^verbatim>\<open>lineDiffs\<close> of \<^verbatim>\<open>CodeEditor\<close> (named \<open>editor_lineDiffs\<close> here; the store
  has a field \<open>lineDiffs\<close>). The left editor is mounted with the original code as
  \<^verbatim>\<open>value\<close> and the modified code as \<^verbatim>\<open>otherCode\<close>, the right editor the other way
  round. \<^verbatim>\<open>renderLineWithDiff\<close> highlights line \<open>k\<close> with \<^verbatim>\<open>lineDiffs[k]\<close> when it
  is defined.
\<close>

definition editor_lineDiffs ::
  "DiffMatchPatch \<Rightarrow> string \<Rightarrow> string \<Rightarrow> (nat \<rightharpoonup> Diff list)" where
  "editor_lineDiffs dmp value otherCode =
     (if otherCode = [] \<or> value = [] then Map.empty
      else
        let currentLines = split_lines value;
            otherLines = split_lines otherCode;
            maxLines = max (length currentLines) (length otherLines)
        in editor_loop dmp currentLines otherLines maxLines 0 Map.empty)"

section \<open>Auxiliary notions for the proofs\<close>

declare dp_row.simps [simp del] dp_fill.simps [simp del] backtrack.simps [simp del]
  editor_loop.simps [simp del] toString.simps [simp del]

text \<open>
  A diff engine on which the model can be run: it strips the longest common prefix and
  suffix, as \<^verbatim>\<open>diff_main\<close> does first, and reports what is left of either text as one
  deletion and one insertion; its cleanup changes nothing. It is not a model of the
  library and no general theorem below depends on it; it instantiates them. In the
  examples below, what is left after the common prefix and suffix is empty on one side
  or shares no character with the other side; there \<^verbatim>\<open>diff_main\<close> too answers with
  one deletion and one insertion, and \<^verbatim>\<open>diff_cleanupSemantic\<close> finds nothing to merge.
\<close>

definition affix_diff_main :: "string \<Rightarrow> string \<Rightarrow> Diff list" where
  "affix_diff_main text1 text2 =
     (let p = longest_common_prefix text1 text2;
          rest1 = drop (length p) text1;
          rest2 = drop (length p) text2;
          s = rev (longest_common_prefix (rev rest1) (rev rest2));
          mid1 = take (length rest1 - length s) rest1;
          mid2 = take (length rest2 - length s) rest2
      in filter (\<lambda>(t, x). x \<noteq> []) [(0, p), (- 1, mid1), (1, mid2), (0, s)])"

definition affix_dmp :: DiffMatchPatch where
  "affix_dmp = \<lparr>diff_main = affix_diff_main, diff_cleanupSemantic = (\<lambda>ds. ds)\<rparr>"

text \<open>
  The reconstruction property of an edit script from \<open>a\<close> to \<open>b\<close>: its types are
  \<open>-1\<close>, \<open>0\<close> or \<open>1\<close>, the equal and deleted texts make up \<open>a\<close>, the equal and inserted
  texts make up \<open>b\<close>.
\<close>

definition reconstructs :: "Diff list \<Rightarrow> string \<Rightarrow> string \<Rightarrow> bool" where
  "reconstructs ds a b \<longleftrightarrow>
     list_all (\<lambda>(t, x). t = - 1 \<or> t = 0 \<or> t = 1) ds \<and>
     concat (map snd (filter (\<lambda>(t, x). t = 0 \<or> t = - 1) ds)) = a \<and>
     concat (map snd (filter (\<lambda>(t, x). t = 0 \<or> t = 1) ds)) = b"

text \<open>The table has \<open>m + 1\<close> rows of \<open>n + 1\<close> cells.\<close>

definition dp_shape :: "nat \<Rightarrow> nat \<Rightarrow> nat list list \<Rightarrow> bool" where
  "dp_shape m n dp \<longleftrightarrow> length dp = m + 1 \<and> (\<forall>row \<in> set dp. length row = n + 1)"

text \<open>
  The entries \<^verbatim>\<open>computeLineDiff\<close> can emit for the documents \<open>ol\<close> and \<open>ml\<close>, and the
  invariant of the backtracking loop: the entries emitted so far carry the original
  indices \<open>i, \<dots>, m - 1\<close> and the modified indices \<open>j, \<dots>, n - 1\<close>, in this order.
\<close>

definition entry_of :: "DiffMatchPatch \<Rightarrow> string list \<Rightarrow> string list \<Rightarrow> LineDiffResult \<Rightarrow> bool" where
  "entry_of dmp ol ml e \<longleftrightarrow>
     (\<exists>k l. k < length ol \<and> l < length ml \<and> trim (ol ! k) = trim (ml ! l) \<and>
        e = \<lparr>type = Equal, originalLine = Some (ol ! k), modifiedLine = Some (ml ! l),
             originalIndex = Some k, modifiedIndex = Some l\<rparr>) \<or>
     (\<exists>k l. k < length ol \<and> l < length ml \<and> trim (ol ! k) \<noteq> trim (ml ! l) \<and>
        calculateSimilarity dmp (ol ! k) (ml ! l) > 3 / 10 \<and>
        e = \<lparr>type = Modify, originalLine = Some (ol ! k), modifiedLine = Some (ml ! l),
             originalIndex = Some k, modifiedIndex = Some l\<rparr>) \<or>
     (\<exists>k. k < length ol \<and>
        e = \<lparr>type = Delete, originalLine = Some (ol ! k), modifiedLine = None,
             originalIndex = Some k, modifiedIndex = None\<rparr>) \<or>
     (\<exists>l. l < length ml \<and>
        e = \<lparr>type = Insert, originalLine = None, modifiedLine = Some (ml ! l),
             originalIndex = None, modifiedIndex = Some l\<rparr>)"

definition backtrack_inv ::
  "DiffMatchPatch \<Rightarrow> string list \<Rightarrow> string list \<Rightarrow> nat \<Rightarrow> nat \<Rightarrow> LineDiffResult list \<Rightarrow> bool" where
  "backtrack_inv dmp ol ml i j r \<longleftrightarrow>
     i \<le> length ol \<and> j \<le> length ml \<and>
     (\<forall>e \<in> set r. entry_of dmp ol ml e) \<and>
     List.map_filter originalIndex r = [i..<length ol] \<and>
     List.map_filter modifiedIndex r = [j..<length ml]"

text \<open>
  The loop states \<open>(i, j, result)\<close> that the backtracking of \<^verbatim>\<open>computeLineDiff\<close> goes
  through: it starts at \<open>(m, n, [])\<close> and makes one pass after the other while an index
  is positive.
\<close>

inductive backtrack_reaches ::
  "DiffMatchPatch \<Rightarrow> string list \<Rightarrow> string list \<Rightarrow> nat list list \<Rightarrow>
   nat \<times> nat \<times> LineDiffResult list \<Rightarrow> bool"
  for dmp :: DiffMatchPatch and ol ml :: "string list" and dp :: "nat list list" where
  start: "backtrack_reaches dmp ol ml dp (length ol, length ml, [])"
| pass: "backtrack_reaches dmp ol ml dp (i, j, r) \<Longrightarrow> 0 < i \<or> 0 < j \<Longrightarrow>
         backtrack_step dmp ol ml dp i j r = Some s' \<Longrightarrow>
         backtrack_reaches dmp ol ml dp s'"

section \<open>The table is never left\<close>

lemma dp_init_shape: "dp_shape m n (dp_init m n)"
  by (simp add: dp_shape_def dp_init_def)

lemma dp_read_shape:
  "dp_shape m n dp \<Longrightarrow> i \<le> m \<Longrightarrow> j \<le> n \<Longrightarrow> \<exists>v. dp_read dp i j = Some v"
  by (simp add: dp_shape_def dp_read_def elem_at_def)

lemma dp_write_shape:
  assumes "dp_shape m n dp" "i \<le> m" "j \<le> n"
  shows "\<exists>dp'. dp_write dp i j v = Some dp' \<and> dp_shape m n dp'"
proof -
  from assms have len: "i < length dp" "length (dp ! i) = n + 1"
    by (simp_all add: dp_shape_def)
  then have "dp_write dp i j v = Some (dp[i := (dp ! i)[j := v]])"
    using assms(3) by (simp add: dp_write_def elem_at_def)
  moreover have "dp_shape m n (dp[i := (dp ! i)[j := v]])"
    using assms(1) len by (auto simp: dp_shape_def dest!: set_update_subset_insert [THEN subsetD])
  ultimately show ?thesis by simp
qed

lemma dp_cell_shape:
  assumes "dp_shape (length ol) (length ml) dp"
    and "0 < i" "i \<le> length ol" "0 < j" "j \<le> length ml"
  shows "\<exists>dp'. dp_cell ol ml dp i j = Some dp' \<and> dp_shape (length ol) (length ml) dp'"
proof -
  have "\<exists>d. dp_read dp (i - 1) (j - 1) = Some d"
    by (rule dp_read_shape [OF assms(1)]) (use assms in simp_all)
  then obtain d where d: "dp_read dp (i - 1) (j - 1) = Some d" ..
  have "\<exists>u. dp_read dp (i - 1) j = Some u"
    by (rule dp_read_shape [OF assms(1)]) (use assms in simp_all)
  then obtain u where u: "dp_read dp (i - 1) j = Some u" ..
  have "\<exists>l. dp_read dp i (j - 1) = Some l"
    by (rule dp_read_shape [OF assms(1)]) (use assms in simp_all)
  then obtain l where l: "dp_read dp i (j - 1) = Some l" ..
  have a: "elem_at ol (i - 1) = Some (ol ! (i - 1))"
    and b: "elem_at ml (j - 1) = Some (ml ! (j - 1))"
    using assms by (simp_all add: elem_at_def)
  show ?thesis
    unfolding dp_cell_def a b d u l
    using dp_write_shape [OF assms(1) assms(3) assms(5)]
    by simp
qed

lemma dp_row_shape:
  "dp_shape (length ol) (length ml) dp \<Longrightarrow> 0 < i \<Longrightarrow> i \<le> length ol \<Longrightarrow> 0 < j \<Longrightarrow>
   \<exists>dp'. dp_row ol ml dp i j (length ml) = Some dp' \<and> dp_shape (length ol) (length ml) dp'"
proof (induction ol ml dp i j "length ml" rule: dp_row.induct)
  case (1 ol ml dp i j)
  show ?case
  proof (cases "j \<le> length ml")
    case True
    then obtain dp' where c: "dp_cell ol ml dp i j = Some dp'"
      and s: "dp_shape (length ol) (length ml) dp'"
      using dp_cell_shape [OF "1.prems"(1,2,3,4)] by blast
    from "1.hyps" [OF True c s] "1.prems" True c show ?thesis
      by (subst dp_row.simps) simp
  next
    case False
    with "1.prems" show ?thesis by (subst dp_row.simps) simp
  qed
qed

lemma dp_fill_shape:
  "dp_shape (length ol) (length ml) dp \<Longrightarrow> 0 < i \<Longrightarrow>
   \<exists>dp'. dp_fill ol ml dp i (length ol) (length ml) = Some dp' \<and>
     dp_shape (length ol) (length ml) dp'"
proof (induction ol ml dp i "length ol" "length ml" rule: dp_fill.induct)
  case (1 ol ml dp i)
  show ?case
  proof (cases "i \<le> length ol")
    case True
    then obtain dp' where c: "dp_row ol ml dp i 1 (length ml) = Some dp'"
      and s: "dp_shape (length ol) (length ml) dp'"
      using dp_row_shape [OF "1.prems"(1,2), of 1] by auto
    from "1.hyps" [OF True c s] True c show ?thesis
      by (subst dp_fill.simps) simp
  next
    case False
    with "1.prems" show ?thesis by (subst dp_fill.simps) simp
  qed
qed

lemma backtrack_rule:
  assumes step: "\<And>i j r. I i j r \<Longrightarrow> 0 < i \<or> 0 < j \<Longrightarrow>
    \<exists>i' j' r'. backtrack_step dmp ol ml dp i j r = Some (i', j', r') \<and> I i' j' r'"
    and init: "I i j r"
  shows "\<exists>res. backtrack dmp ol ml dp i j r = Some res \<and> I 0 0 res"
  using step init
proof (induction dmp ol ml dp i j r rule: backtrack.induct)
  case (1 dmp ol ml dp i j r)
  note step' = "1.prems"(1)
  show ?case
  proof (cases "0 < i \<or> 0 < j")
    case True
    from step' [OF "1.prems"(2) True]
    obtain i' j' r' where s: "backtrack_step dmp ol ml dp i j r = Some (i', j', r')"
      and I': "I i' j' r'"
      by blast
    from "1.IH" [OF True s refl refl step' I'] True s show ?thesis
      by (subst backtrack.simps) simp
  next
    case False
    with "1.prems"(2) show ?thesis by (subst backtrack.simps) simp
  qed
qed

section \<open>The invariant of the backtracking loop\<close>

lemma upt_pred_Cons: "0 < i \<Longrightarrow> i \<le> m \<Longrightarrow> [i - Suc 0..<m] = (i - Suc 0) # [i..<m]"
  by (cases i) (simp_all add: upt_conv_Cons)

lemma backtrack_inv_both:
  assumes "backtrack_inv dmp ol ml i j r" "0 < i" "0 < j" "entry_of dmp ol ml e"
    and "originalIndex e = Some (i - 1)" "modifiedIndex e = Some (j - 1)"
  shows "backtrack_inv dmp ol ml (i - 1) (j - 1) (e # r)"
  using assms by (auto simp: backtrack_inv_def map_filter_simps upt_pred_Cons)

lemma backtrack_inv_orig:
  assumes "backtrack_inv dmp ol ml i j r" "0 < i" "entry_of dmp ol ml e"
    and "originalIndex e = Some (i - 1)" "modifiedIndex e = None"
  shows "backtrack_inv dmp ol ml (i - 1) j (e # r)"
  using assms by (auto simp: backtrack_inv_def map_filter_simps upt_pred_Cons)

lemma backtrack_inv_mod:
  assumes "backtrack_inv dmp ol ml i j r" "0 < j" "entry_of dmp ol ml e"
    and "originalIndex e = None" "modifiedIndex e = Some (j - 1)"
  shows "backtrack_inv dmp ol ml i (j - 1) (e # r)"
  using assms by (auto simp: backtrack_inv_def map_filter_simps upt_pred_Cons)

lemma entry_of_Equal:
  "k < length ol \<Longrightarrow> l < length ml \<Longrightarrow> trim (ol ! k) = trim (ml ! l) \<Longrightarrow>
   entry_of dmp ol ml \<lparr>type = Equal, originalLine = Some (ol ! k), modifiedLine = Some (ml ! l),
     originalIndex = Some k, modifiedIndex = Some l\<rparr>"
  unfolding entry_of_def by blast

lemma entry_of_Modify:
  "k < length ol \<Longrightarrow> l < length ml \<Longrightarrow> trim (ol ! k) \<noteq> trim (ml ! l) \<Longrightarrow>
   calculateSimilarity dmp (ol ! k) (ml ! l) > 3 / 10 \<Longrightarrow>
   entry_of dmp ol ml \<lparr>type = Modify, originalLine = Some (ol ! k), modifiedLine = Some (ml ! l),
     originalIndex = Some k, modifiedIndex = Some l\<rparr>"
  unfolding entry_of_def by blast

lemma entry_of_Delete:
  "k < length ol \<Longrightarrow>
   entry_of dmp ol ml \<lparr>type = Delete, originalLine = Some (ol ! k), modifiedLine = None,
     originalIndex = Some k, modifiedIndex = None\<rparr>"
  unfolding entry_of_def by blast

lemma entry_of_Insert:
  "l < length ml \<Longrightarrow>
   entry_of dmp ol ml \<lparr>type = Insert, originalLine = None, modifiedLine = Some (ml ! l),
     originalIndex = None, modifiedIndex = Some l\<rparr>"
  unfolding entry_of_def by blast

lemma backtrack_inv_step:
  assumes shape: "dp_shape (length ol) (length ml) dp"
    and inv: "backtrack_inv dmp ol ml i j r"
    and pos: "0 < i \<or> 0 < j"
  shows "\<exists>i' j' r'. backtrack_step dmp ol ml dp i j r = Some (i', j', r') \<and>
           backtrack_inv dmp ol ml i' j' r'"
proof -
  from inv have le: "i \<le> length ol" "j \<le> length ml"
    by (simp_all add: backtrack_inv_def)
  show ?thesis
  proof (cases "0 < i \<and> 0 < j")
    case True
    then have ij: "0 < i" "0 < j" by simp_all
    have lt: "i - 1 < length ol" "j - 1 < length ml"
      using ij le by simp_all
    then have a: "elem_at ol (i - 1) = Some (ol ! (i - 1))"
      and b: "elem_at ml (j - 1) = Some (ml ! (j - 1))"
      by (simp_all add: elem_at_def)
    have "\<exists>u. dp_read dp (i - 1) j = Some u"
      by (rule dp_read_shape [OF shape]) (use le in simp_all)
    then obtain u where u: "dp_read dp (i - 1) j = Some u" ..
    have "\<exists>l. dp_read dp i (j - 1) = Some l"
      by (rule dp_read_shape [OF shape]) (use le in simp_all)
    then obtain l where l: "dp_read dp i (j - 1) = Some l" ..
    consider (eq) "trim (ol ! (i - 1)) = trim (ml ! (j - 1))"
      | (modify) "trim (ol ! (i - 1)) \<noteq> trim (ml ! (j - 1))"
          "calculateSimilarity dmp (ol ! (i - 1)) (ml ! (j - 1)) > 3 / 10"
      | (del) "trim (ol ! (i - 1)) \<noteq> trim (ml ! (j - 1))"
          "\<not> calculateSimilarity dmp (ol ! (i - 1)) (ml ! (j - 1)) > 3 / 10" "l < u"
      | (ins) "trim (ol ! (i - 1)) \<noteq> trim (ml ! (j - 1))"
          "\<not> calculateSimilarity dmp (ol ! (i - 1)) (ml ! (j - 1)) > 3 / 10" "\<not> l < u"
      by blast
    then show ?thesis
    proof cases
      case eq
      have "backtrack_inv dmp ol ml (i - 1) (j - 1)
          (\<lparr>type = Equal, originalLine = Some (ol ! (i - 1)), modifiedLine = Some (ml ! (j - 1)),
            originalIndex = Some (i - 1), modifiedIndex = Some (j - 1)\<rparr> # r)"
        by (rule backtrack_inv_both [OF inv ij entry_of_Equal [OF lt eq]]) simp_all
      then show ?thesis
        unfolding backtrack_step_def a b using ij eq by simp
    next
      case modify
      have "backtrack_inv dmp ol ml (i - 1) (j - 1)
          (\<lparr>type = Modify, originalLine = Some (ol ! (i - 1)), modifiedLine = Some (ml ! (j - 1)),
            originalIndex = Some (i - 1), modifiedIndex = Some (j - 1)\<rparr> # r)"
        by (rule backtrack_inv_both [OF inv ij entry_of_Modify [OF lt modify]]) simp_all
      then show ?thesis
        unfolding backtrack_step_def a b using ij modify by simp
    next
      case del
      have "backtrack_inv dmp ol ml (i - 1) j
          (\<lparr>type = Delete, originalLine = Some (ol ! (i - 1)), modifiedLine = None,
            originalIndex = Some (i - 1), modifiedIndex = None\<rparr> # r)"
        by (rule backtrack_inv_orig [OF inv ij(1) entry_of_Delete [OF lt(1)]]) simp_all
      then show ?thesis
        unfolding backtrack_step_def a b u l using ij del by simp
    next
      case ins
      have "backtrack_inv dmp ol ml i (j - 1)
          (\<lparr>type = Insert, originalLine = None, modifiedLine = Some (ml ! (j - 1)),
            originalIndex = None, modifiedIndex = Some (j - 1)\<rparr> # r)"
        by (rule backtrack_inv_mod [OF inv ij(2) entry_of_Insert [OF lt(2)]]) simp_all
      then show ?thesis
        unfolding backtrack_step_def a b u l using ij ins by simp
    qed
  next
    case False
    show ?thesis
    proof (cases "0 < i")
      case True
      have lt: "i - 1 < length ol"
        using True le by simp
      then have a: "elem_at ol (i - 1) = Some (ol ! (i - 1))"
        by (simp add: elem_at_def)
      have "backtrack_inv dmp ol ml (i - 1) j
          (\<lparr>type = Delete, originalLine = Some (ol ! (i - 1)), modifiedLine = None,
            originalIndex = Some (i - 1), modifiedIndex = None\<rparr> # r)"
        by (rule backtrack_inv_orig [OF inv True entry_of_Delete [OF lt]]) simp_all
      then show ?thesis
        unfolding backtrack_step_def a using True False by simp
    next
      case False
      with pos have jpos: "0 < j" by simp
      have lt: "j - 1 < length ml"
        using jpos le by simp
      then have b: "elem_at ml (j - 1) = Some (ml ! (j - 1))"
        by (simp add: elem_at_def)
      have "backtrack_inv dmp ol ml i (j - 1)
          (\<lparr>type = Insert, originalLine = None, modifiedLine = Some (ml ! (j - 1)),
            originalIndex = None, modifiedIndex = Some (j - 1)\<rparr> # r)"
        by (rule backtrack_inv_mod [OF inv jpos entry_of_Insert [OF lt]]) simp_all
      then show ?thesis
        unfolding backtrack_step_def b using False jpos by simp
    qed
  qed
qed

lemma computeLineDiff_inv:
  "\<exists>res. computeLineDiff dmp ol ml = Some res \<and> backtrack_inv dmp ol ml 0 0 res"
proof -
  have "\<exists>dp. dp_fill ol ml (dp_init (length ol) (length ml)) 1 (length ol) (length ml) = Some dp
          \<and> dp_shape (length ol) (length ml) dp"
    by (rule dp_fill_shape [OF dp_init_shape]) simp
  then obtain dp
    where dp: "dp_fill ol ml (dp_init (length ol) (length ml)) 1 (length ol) (length ml) = Some dp"
      and shape: "dp_shape (length ol) (length ml) dp"
    by blast
  have init: "backtrack_inv dmp ol ml (length ol) (length ml) []"
    by (simp add: backtrack_inv_def map_filter_simps)
  have "\<exists>res. backtrack dmp ol ml dp (length ol) (length ml) [] = Some res \<and>
          backtrack_inv dmp ol ml 0 0 res"
  proof (rule backtrack_rule [where I = "backtrack_inv dmp ol ml"])
    show "\<exists>i' j' r'. backtrack_step dmp ol ml dp i j r = Some (i', j', r') \<and>
            backtrack_inv dmp ol ml i' j' r'"
      if "backtrack_inv dmp ol ml i j r" "0 < i \<or> 0 < j" for i j r
      using that by (rule backtrack_inv_step [OF shape])
    show "backtrack_inv dmp ol ml (length ol) (length ml) []"
      by (rule init)
  qed
  then show ?thesis
    unfolding computeLineDiff_def Let_def dp by simp
qed

section \<open>Claims about \<^verbatim>\<open>computeLineDiff\<close> as a whole\<close>

lemma entry_of_lines:
  "entry_of dmp ol ml e \<Longrightarrow>
   originalLine e = map_option ((!) ol) (originalIndex e) \<and>
   modifiedLine e = map_option ((!) ml) (modifiedIndex e)"
  unfolding entry_of_def by auto

lemma entry_of_kinds:
  "entry_of dmp ol ml e \<Longrightarrow>
   (originalLine e \<noteq> None) = (type e = Equal \<or> type e = Modify \<or> type e = Delete) \<and>
   (modifiedLine e \<noteq> None) = (type e = Equal \<or> type e = Modify \<or> type e = Insert)"
  unfolding entry_of_def by auto

lemma map_filter_lines:
  assumes "\<forall>e \<in> set r. entry_of dmp ol ml e"
  shows "List.map_filter originalLine r = map ((!) ol) (List.map_filter originalIndex r)"
    and "List.map_filter modifiedLine r = map ((!) ml) (List.map_filter modifiedIndex r)"
  using assms
  by (induction r) (auto simp: map_filter_simps dest!: entry_of_lines split: option.splits)

lemma filter_kinds:
  assumes "\<forall>e \<in> set r. entry_of dmp ol ml e"
  shows "filter (\<lambda>e. type e = Equal \<or> type e = Modify \<or> type e = Delete) r =
           filter (\<lambda>e. originalLine e \<noteq> None) r"
    and "filter (\<lambda>e. type e = Equal \<or> type e = Modify \<or> type e = Insert) r =
           filter (\<lambda>e. modifiedLine e \<noteq> None) r"
  using assms by (auto intro!: filter_cong dest!: entry_of_kinds)

lemma length_map_filter:
  "length (List.map_filter f xs) = length (filter (\<lambda>x. f x \<noteq> None) xs)"
  by (simp add: map_filter_def)

lemma map_filter_filter_defined:
  "List.map_filter f (filter (\<lambda>x. f x \<noteq> None) xs) = List.map_filter f xs"
  by (simp add: map_filter_def)

text \<open>
  Claim C1 (line-count conservation). For all line sequences, \<^verbatim>\<open>computeLineDiff\<close>
  returns a sequence with exactly \<open>length originalLines\<close> entries whose
  \<^verbatim>\<open>originalLine\<close> is defined and exactly \<open>length modifiedLines\<close> entries whose
  \<^verbatim>\<open>modifiedLine\<close> is defined; the defined original lines, read in output order, are
  the original document, and the defined modified lines are the modified document.
  The entries with an original line are those of kind Equal, Modify or Delete, the
  entries with a modified line those of kind Equal, Modify or Insert.
\<close>

theorem computeLineDiff_conserves_lines:
  "\<exists>res. computeLineDiff dmp originalLines modifiedLines = Some res \<and>
     length (filter (\<lambda>e. originalLine e \<noteq> None) res) = length originalLines \<and>
     length (filter (\<lambda>e. modifiedLine e \<noteq> None) res) = length modifiedLines \<and>
     List.map_filter originalLine res = originalLines \<and>
     List.map_filter modifiedLine res = modifiedLines \<and>
     List.map_filter originalLine
       (filter (\<lambda>e. type e = Equal \<or> type e = Modify \<or> type e = Delete) res) = originalLines \<and>
     List.map_filter modifiedLine
       (filter (\<lambda>e. type e = Equal \<or> type e = Modify \<or> type e = Insert) res) = modifiedLines"
proof -
  obtain res where res: "computeLineDiff dmp originalLines modifiedLines = Some res"
    and inv: "backtrack_inv dmp originalLines modifiedLines 0 0 res"
    using computeLineDiff_inv by blast
  from inv have ents: "\<forall>e \<in> set res. entry_of dmp originalLines modifiedLines e"
    and oi: "List.map_filter originalIndex res = [0..<length originalLines]"
    and mi: "List.map_filter modifiedIndex res = [0..<length modifiedLines]"
    by (simp_all add: backtrack_inv_def)
  have ol: "List.map_filter originalLine res = originalLines"
    by (simp only: map_filter_lines(1) [OF ents] oi map_nth)
  have ml: "List.map_filter modifiedLine res = modifiedLines"
    by (simp only: map_filter_lines(2) [OF ents] mi map_nth)
  have lo: "length (filter (\<lambda>e. originalLine e \<noteq> None) res) = length originalLines"
    using ol by (simp only: length_map_filter [symmetric])
  have lm: "length (filter (\<lambda>e. modifiedLine e \<noteq> None) res) = length modifiedLines"
    using ml by (simp only: length_map_filter [symmetric])
  have ko: "List.map_filter originalLine
       (filter (\<lambda>e. type e = Equal \<or> type e = Modify \<or> type e = Delete) res) = originalLines"
    by (simp only: filter_kinds(1) [OF ents] map_filter_filter_defined ol)
  have km: "List.map_filter modifiedLine
       (filter (\<lambda>e. type e = Equal \<or> type e = Modify \<or> type e = Insert) res) = modifiedLines"
    by (simp only: filter_kinds(2) [OF ents] map_filter_filter_defined ml)
  from res lo lm ol ml ko km show ?thesis
    by blast
qed

text \<open>
  Claim C5 (kind/field invariant). Every entry of the output has the fields of its
  kind: Equal and Modify entries have \<^verbatim>\<open>originalLine\<close>, \<^verbatim>\<open>modifiedLine\<close>,
  \<^verbatim>\<open>originalIndex\<close> and \<^verbatim>\<open>modifiedIndex\<close> defined; Insert entries have only
  \<^verbatim>\<open>modifiedLine\<close> and \<^verbatim>\<open>modifiedIndex\<close> defined; Delete entries have only
  \<^verbatim>\<open>originalLine\<close> and \<^verbatim>\<open>originalIndex\<close> defined.
\<close>

theorem computeLineDiff_kind_fields:
  "\<exists>res. computeLineDiff dmp originalLines modifiedLines = Some res \<and>
     (\<forall>e \<in> set res.
        (type e = Equal \<or> type e = Modify \<longrightarrow>
           originalLine e \<noteq> None \<and> modifiedLine e \<noteq> None \<and>
           originalIndex e \<noteq> None \<and> modifiedIndex e \<noteq> None) \<and>
        (type e = Insert \<longrightarrow>
           originalLine e = None \<and> modifiedLine e \<noteq> None \<and>
           originalIndex e = None \<and> modifiedIndex e \<noteq> None) \<and>
        (type e = Delete \<longrightarrow>
           originalLine e \<noteq> None \<and> modifiedLine e = None \<and>
           originalIndex e \<noteq> None \<and> modifiedIndex e = None))"
proof -
  obtain res where res: "computeLineDiff dmp originalLines modifiedLines = Some res"
    and inv: "backtrack_inv dmp originalLines modifiedLines 0 0 res"
    using computeLineDiff_inv by blast
  from inv have ents: "\<forall>e \<in> set res. entry_of dmp originalLines modifiedLines e"
    by (simp add: backtrack_inv_def)
  have "(type e = Equal \<or> type e = Modify \<longrightarrow>
           originalLine e \<noteq> None \<and> modifiedLine e \<noteq> None \<and>
           originalIndex e \<noteq> None \<and> modifiedIndex e \<noteq> None) \<and>
        (type e = Insert \<longrightarrow>
           originalLine e = None \<and> modifiedLine e \<noteq> None \<and>
           originalIndex e = None \<and> modifiedIndex e \<noteq> None) \<and>
        (type e = Delete \<longrightarrow>
           originalLine e \<noteq> None \<and> modifiedLine e = None \<and>
           originalIndex e \<noteq> None \<and> modifiedIndex e = None)"
    if "entry_of dmp originalLines modifiedLines e" for e
    using that unfolding entry_of_def by auto
  with res ents show ?thesis
    by blast
qed

text \<open>
  Claim C6 (monotonic indices). In the output, the \<^verbatim>\<open>originalIndex\<close> values of the
  entries that have one are strictly increasing in sequence order, and so are the
  \<^verbatim>\<open>modifiedIndex\<close> values; they are the indices \<open>0, \<dots>, m - 1\<close> and
  \<open>0, \<dots>, n - 1\<close> of the two documents.
\<close>

theorem computeLineDiff_monotonic_indices:
  "\<exists>res. computeLineDiff dmp originalLines modifiedLines = Some res \<and>
     sorted_wrt (<) (List.map_filter originalIndex res) \<and>
     sorted_wrt (<) (List.map_filter modifiedIndex res) \<and>
     List.map_filter originalIndex res = [0..<length originalLines] \<and>
     List.map_filter modifiedIndex res = [0..<length modifiedLines]"
proof -
  obtain res where res: "computeLineDiff dmp originalLines modifiedLines = Some res"
    and inv: "backtrack_inv dmp originalLines modifiedLines 0 0 res"
    using computeLineDiff_inv by blast
  from inv have oi: "List.map_filter originalIndex res = [0..<length originalLines]"
    and mi: "List.map_filter modifiedIndex res = [0..<length modifiedLines]"
    by (simp_all add: backtrack_inv_def)
  have "sorted_wrt (<) (List.map_filter originalIndex res)"
    and "sorted_wrt (<) (List.map_filter modifiedIndex res)"
    by (simp_all only: oi mi sorted_wrt_upt)
  with res oi mi show ?thesis
    by blast
qed

lemma four_kinds_run:
  "computeLineDiff affix_dmp [''a'', ''b'', ''foo();''] [''a'', ''x'', ''foo(x);''] =
     Some [\<lparr>type = Equal, originalLine = Some ''a'', modifiedLine = Some ''a'',
             originalIndex = Some 0, modifiedIndex = Some 0\<rparr>,
           \<lparr>type = Delete, originalLine = Some ''b'', modifiedLine = None,
             originalIndex = Some 1, modifiedIndex = None\<rparr>,
           \<lparr>type = Insert, originalLine = None, modifiedLine = Some ''x'',
             originalIndex = None, modifiedIndex = Some 1\<rparr>,
           \<lparr>type = Modify, originalLine = Some ''foo();'', modifiedLine = Some ''foo(x);'',
             originalIndex = Some 2, modifiedIndex = Some 2\<rparr>]"
  by code_simp

theorem computeLineDiff_kind_fields_witness:
  "\<exists>res. computeLineDiff affix_dmp [''a'', ''b'', ''foo();''] [''a'', ''x'', ''foo(x);''] = Some res \<and>
     map type res = [Equal, Delete, Insert, Modify] \<and>
     map (\<lambda>e. originalLine e \<noteq> None) res = [True, True, False, True] \<and>
     map (\<lambda>e. originalIndex e \<noteq> None) res = [True, True, False, True] \<and>
     map (\<lambda>e. modifiedLine e \<noteq> None) res = [True, False, True, True] \<and>
     map (\<lambda>e. modifiedIndex e \<noteq> None) res = [True, False, True, True]"
proof -
  from computeLineDiff_kind_fields
    [of affix_dmp "[''a'', ''b'', ''foo();'']" "[''a'', ''x'', ''foo(x);'']"]
  obtain res
    where res: "computeLineDiff affix_dmp [''a'', ''b'', ''foo();''] [''a'', ''x'', ''foo(x);'']
                  = Some res"
      and fields: "\<forall>e \<in> set res.
        (type e = Equal \<or> type e = Modify \<longrightarrow>
           originalLine e \<noteq> None \<and> modifiedLine e \<noteq> None \<and>
           originalIndex e \<noteq> None \<and> modifiedIndex e \<noteq> None) \<and>
        (type e = Insert \<longrightarrow>
           originalLine e = None \<and> modifiedLine e \<noteq> None \<and>
           originalIndex e = None \<and> modifiedIndex e \<noteq> None) \<and>
        (type e = Delete \<longrightarrow>
           originalLine e \<noteq> None \<and> modifiedLine e = None \<and>
           originalIndex e \<noteq> None \<and> modifiedIndex e = None)"
    by blast
  from res have kinds: "map type res = [Equal, Delete, Insert, Modify]"
    by (auto simp: four_kinds_run)
  then obtain e1 e2 e3 e4 where es: "res = [e1, e2, e3, e4]"
    and "type e1 = Equal" "type e2 = Delete" "type e3 = Insert" "type e4 = Modify"
    by (auto simp: map_eq_Cons_conv)
  with fields res kinds show ?thesis
    by simp
qed

lemma dp_fill_returns:
  "\<exists>dp. dp_fill ol ml (dp_init (length ol) (length ml)) 1 (length ol) (length ml) = Some dp"
  using dp_fill_shape [OF dp_init_shape, of 1 ol ml] by auto

text \<open>
  Claim C7 (identity). For every line sequence \<open>X\<close>, \<^verbatim>\<open>computeLineDiff(X, X)\<close> returns
  exactly \<open>length X\<close> entries, all of kind Equal, the \<open>k\<close>-th pairing line \<open>k\<close> with
  line \<open>k\<close>, in the order of the document.
\<close>

theorem computeLineDiff_identity:
  "\<exists>res. computeLineDiff dmp X X = Some res \<and>
     length res = length X \<and>
     map type res = replicate (length X) Equal \<and>
     res = map (\<lambda>k. \<lparr>type = Equal, originalLine = Some (X ! k), modifiedLine = Some (X ! k),
                        originalIndex = Some k, modifiedIndex = Some k\<rparr>) [0..<length X]"
proof -
  define f where "f = (\<lambda>k. \<lparr>type = Equal, originalLine = Some (X ! k), modifiedLine = Some (X ! k),
                        originalIndex = Some k, modifiedIndex = Some k\<rparr>)"
  define I where "I = (\<lambda>i j r. i = j \<and> i \<le> length X \<and> r = map f [i..<length X])"
  obtain dp where dp: "dp_fill X X (dp_init (length X) (length X)) 1 (length X) (length X) = Some dp"
    using dp_fill_returns by blast
  have "\<exists>res. backtrack dmp X X dp (length X) (length X) [] = Some res \<and> I 0 0 res"
  proof (rule backtrack_rule [where I = I])
    show "\<exists>i' j' r'. backtrack_step dmp X X dp i j r = Some (i', j', r') \<and> I i' j' r'"
      if "I i j r" "0 < i \<or> 0 < j" for i j r
    proof -
      from that have ij: "j = i" "0 < i" "i \<le> length X" and r: "r = map f [i..<length X]"
        by (auto simp: I_def)
      then have a: "elem_at X (i - 1) = Some (X ! (i - 1))"
        by (simp add: elem_at_def)
      have s: "backtrack_step dmp X X dp i i r = Some (i - 1, i - 1, f (i - 1) # r)"
        unfolding backtrack_step_def a using ij by (simp add: f_def)
      have "I (i - 1) (i - 1) (f (i - 1) # r)"
        using ij r by (simp add: I_def upt_pred_Cons)
      with s ij show ?thesis by blast
    qed
    show "I (length X) (length X) []"
      by (simp add: I_def)
  qed
  then obtain res where res: "backtrack dmp X X dp (length X) (length X) [] = Some res"
    and r: "res = map f [0..<length X]"
    by (auto simp: I_def)
  have c: "computeLineDiff dmp X X = Some res"
    unfolding computeLineDiff_def Let_def dp using res by simp
  have t: "map type res = replicate (length X) Equal"
    unfolding r by (simp add: f_def comp_def map_replicate_const)
  from c r t show ?thesis
    unfolding f_def by simp
qed

text \<open>
  Claim C8 (empty original). For every line sequence \<open>M\<close>, \<^verbatim>\<open>computeLineDiff([], M)\<close>
  returns exactly \<open>length M\<close> Insert entries, the \<open>k\<close>-th carrying line \<open>k\<close> of \<open>M\<close>, in
  the order of the document; \<^verbatim>\<open>computeLineDiff([], [])\<close> returns the empty sequence.
\<close>

theorem computeLineDiff_empty_original:
  "(\<exists>res. computeLineDiff dmp [] M = Some res \<and>
      length res = length M \<and>
      res = map (\<lambda>k. \<lparr>type = Insert, originalLine = None, modifiedLine = Some (M ! k),
                         originalIndex = None, modifiedIndex = Some k\<rparr>) [0..<length M]) \<and>
   computeLineDiff dmp [] [] = Some []"
proof -
  define f where "f = (\<lambda>k. \<lparr>type = Insert, originalLine = None, modifiedLine = Some (M ! k),
                         originalIndex = None, modifiedIndex = Some k\<rparr>)"
  define I where "I = (\<lambda>(i::nat) j r. i = 0 \<and> j \<le> length M \<and> r = map f [j..<length M])"
  obtain dp where dp: "dp_fill [] M (dp_init 0 (length M)) 1 0 (length M) = Some dp"
    using dp_fill_returns [of "[]" M] by auto
  have "\<exists>res. backtrack dmp [] M dp 0 (length M) [] = Some res \<and> I 0 0 res"
  proof (rule backtrack_rule [where I = I])
    show "\<exists>i' j' r'. backtrack_step dmp [] M dp i j r = Some (i', j', r') \<and> I i' j' r'"
      if "I i j r" "0 < i \<or> 0 < j" for i j r
    proof -
      from that have ij: "i = 0" "0 < j" "j \<le> length M" and r: "r = map f [j..<length M]"
        by (auto simp: I_def)
      then have b: "elem_at M (j - 1) = Some (M ! (j - 1))"
        by (simp add: elem_at_def)
      have s: "backtrack_step dmp [] M dp 0 j r = Some (0, j - 1, f (j - 1) # r)"
        unfolding backtrack_step_def b using ij by (simp add: f_def)
      have "I 0 (j - 1) (f (j - 1) # r)"
        using ij r by (simp add: I_def upt_pred_Cons)
      with s ij show ?thesis by blast
    qed
    show "I 0 (length M) []"
      by (simp add: I_def)
  qed
  then obtain res where res: "backtrack dmp [] M dp 0 (length M) [] = Some res"
    and r: "res = map f [0..<length M]"
    by (auto simp: I_def)
  have c: "computeLineDiff dmp [] M = Some res"
    unfolding computeLineDiff_def Let_def using dp res by simp
  have e: "computeLineDiff dmp [] [] = Some []"
    unfolding computeLineDiff_def Let_def
    by (simp add: dp_fill.simps backtrack.simps)
  from c r e show ?thesis
    unfolding f_def by simp
qed

section \<open>Edit scripts with the reconstruction property\<close>

text \<open>
  Two lines without a common character have similarity \<open>0\<close> under every diff engine
  whose edit scripts have the reconstruction property, and the engine \<open>affix_dmp\<close> has
  this property.
\<close>

lemma count_lengths_sums:
  "count_lengths ds (t, e) =
     (t + sum_list (map (length \<circ> snd) ds),
      e + sum_list (map (length \<circ> snd) (filter (\<lambda>(ty, x). ty = 0) ds)))"
  by (induction ds "(t, e)" arbitrary: t e rule: count_lengths.induct) auto

lemma reconstructs_equal_texts:
  assumes "reconstructs ds a b" "(0, x) \<in> set ds"
  shows "set x \<subseteq> set a \<inter> set b"
proof -
  from assms(2) have "x \<in> set (map snd (filter (\<lambda>(t, x). t = 0 \<or> t = - 1) ds))"
    and "x \<in> set (map snd (filter (\<lambda>(t, x). t = 0 \<or> t = 1) ds))"
    by force+
  then have "set x \<subseteq> set (concat (map snd (filter (\<lambda>(t, x). t = 0 \<or> t = - 1) ds)))"
    and "set x \<subseteq> set (concat (map snd (filter (\<lambda>(t, x). t = 0 \<or> t = 1) ds)))"
    by auto
  with assms(1) show ?thesis
    by (simp add: reconstructs_def)
qed

lemma calculateSimilarity_disjoint:
  assumes "reconstructs (char_diff dmp a b) a b" "set a \<inter> set b = {}"
  shows "calculateSimilarity dmp a b = 0"
proof -
  have "x = []" if "(0, x) \<in> set (char_diff dmp a b)" for x
    using reconstructs_equal_texts [OF assms(1) that] assms(2) by simp
  then have "sum_list (map (length \<circ> snd) (filter (\<lambda>(ty, x). ty = 0) (char_diff dmp a b))) = 0"
    by (auto simp: sum_list_eq_0_iff)
  then show ?thesis
    by (simp add: calculateSimilarity_def count_lengths_sums)
qed

lemma suffix_take:
  assumes "suffix s r"
  shows "r = take (length r - length s) r @ s"
proof -
  from assms obtain zs where "r = zs @ s"
    by (auto simp: suffix_def)
  then show ?thesis
    by simp
qed

lemma affix_split:
  fixes a b :: string
  defines "p \<equiv> longest_common_prefix a b"
  defines "s \<equiv> rev (longest_common_prefix (rev (drop (length p) a)) (rev (drop (length p) b)))"
  shows "a = p @ take (length (drop (length p) a) - length s) (drop (length p) a) @ s"
    and "b = p @ take (length (drop (length p) b) - length s) (drop (length p) b) @ s"
proof -
  have pa: "prefix p a" and pb: "prefix p b"
    unfolding p_def by (rule longest_common_prefix_prefix1 longest_common_prefix_prefix2)+
  have sa: "suffix s (drop (length p) a)" and sb: "suffix s (drop (length p) b)"
    unfolding s_def suffix_to_prefix
    by (simp_all add: longest_common_prefix_prefix1 longest_common_prefix_prefix2)
  from pa have a: "a = p @ drop (length p) a"
    by (auto simp: prefix_def)
  from pb have b: "b = p @ drop (length p) b"
    by (auto simp: prefix_def)
  from suffix_take [OF sa] a show "a = p @ take (length (drop (length p) a) - length s) (drop (length p) a) @ s"
    by simp
  from suffix_take [OF sb] b show "b = p @ take (length (drop (length p) b) - length s) (drop (length p) b) @ s"
    by simp
qed

lemma affix_dmp_reconstructs: "reconstructs (char_diff affix_dmp a b) a b"
proof -
  define p where "p = longest_common_prefix a b"
  define s where "s = rev (longest_common_prefix (rev (drop (length p) a)) (rev (drop (length p) b)))"
  define m1 where "m1 = take (length (drop (length p) a) - length s) (drop (length p) a)"
  define m2 where "m2 = take (length (drop (length p) b) - length s) (drop (length p) b)"
  have d: "char_diff affix_dmp a b =
             filter (\<lambda>(t, x). x \<noteq> []) [(0, p), (- 1, m1), (1, m2), (0, s)]"
    unfolding char_diff_def affix_dmp_def affix_diff_main_def Let_def p_def s_def m1_def m2_def
    by simp
  have a: "p @ m1 @ s = a" and b: "p @ m2 @ s = b"
    unfolding m1_def m2_def s_def p_def
    using affix_split [where a = a and b = b] by simp_all
  have "concat (map snd (filter (\<lambda>(t, x). t = 0 \<or> t = - 1)
          (filter (\<lambda>(t, x). x \<noteq> []) [(0::int, p), (- 1, m1), (1, m2), (0, s)]))) = p @ m1 @ s"
    and "concat (map snd (filter (\<lambda>(t, x). t = 0 \<or> t = 1)
          (filter (\<lambda>(t, x). x \<noteq> []) [(0::int, p), (- 1, m1), (1, m2), (0, s)]))) = p @ m2 @ s"
    and "list_all (\<lambda>(t, x). t = - 1 \<or> t = 0 \<or> t = 1)
          (filter (\<lambda>(t, x). x \<noteq> []) [(0::int, p), (- 1, m1), (1, m2), (0, s)])"
    by simp_all
  then show ?thesis
    unfolding reconstructs_def d a b by simp
qed

section \<open>Claims about one pass of the backtracking loop\<close>

lemma backtrack_step_cons:
  "backtrack_step dmp ol ml dp i j r = Some (i', j', r') \<Longrightarrow> \<exists>e. r' = e # r"
  by (auto simp: backtrack_step_def split: if_splits bind_splits)

lemma backtrack_suffix:
  "backtrack dmp ol ml dp i j r = Some res \<Longrightarrow> suffix r res"
proof (induction dmp ol ml dp i j r rule: backtrack.induct)
  case (1 dmp ol ml dp i j r)
  show ?case
  proof (cases "0 < i \<or> 0 < j")
    case True
    with "1.prems" obtain i' j' r'
      where s: "backtrack_step dmp ol ml dp i j r = Some (i', j', r')"
        and b: "backtrack dmp ol ml dp i' j' r' = Some res"
      by (subst (asm) backtrack.simps) (auto split: option.splits)
    from "1.IH" [OF True s refl refl b] have "suffix r' res" .
    moreover from backtrack_step_cons [OF s] obtain e where "r' = e # r" ..
    ultimately show ?thesis
      by (auto dest: suffix_ConsD)
  next
    case False
    with "1.prems" show ?thesis
      by (subst (asm) backtrack.simps) simp
  qed
qed

lemma backtrack_reaches_same:
  "backtrack_reaches dmp ol ml dp s \<Longrightarrow>
   (case s of (i, j, r) \<Rightarrow> backtrack dmp ol ml dp i j r) =
     backtrack dmp ol ml dp (length ol) (length ml) []"
proof (induction rule: backtrack_reaches.induct)
  case start
  show ?case by simp
next
  case (pass i j r s')
  obtain i' j' r' where s': "s' = (i', j', r')"
    by (cases s') auto
  have "backtrack dmp ol ml dp i j r = backtrack dmp ol ml dp i' j' r'"
    using pass.hyps(2,3) s' by (subst backtrack.simps) simp
  with pass.IH s' show ?case
    by simp
qed

text \<open>
  Claim C4 (similar lines are paired). In a pass of the backtracking loop with both
  indices positive, if the two candidate lines are not equal after trimming and their
  similarity exceeds \<open>0.3\<close>, the pass puts a Modify entry pairing exactly these two
  lines at their indices in front of the result and decrements both indices, whatever
  the table \<open>dp\<close> holds. The loop goes on from there and keeps the entry: whatever the
  loop returns ends with this entry followed by the entries emitted before. When the
  pass is one that the backtracking of \<^verbatim>\<open>computeLineDiff\<close> goes through,
  \<^verbatim>\<open>computeLineDiff\<close> returns, and its result ends with this entry followed by the
  entries emitted before.
\<close>

theorem backtrack_step_modify:
  assumes "0 < i" "0 < j" "i \<le> length originalLines" "j \<le> length modifiedLines"
    and "trim (originalLines ! (i - 1)) \<noteq> trim (modifiedLines ! (j - 1))"
    and "calculateSimilarity dmp (originalLines ! (i - 1)) (modifiedLines ! (j - 1)) > 3 / 10"
  shows "backtrack_step dmp originalLines modifiedLines dp i j result =
           Some (i - 1, j - 1,
             \<lparr>type = Modify, originalLine = Some (originalLines ! (i - 1)),
              modifiedLine = Some (modifiedLines ! (j - 1)),
              originalIndex = Some (i - 1), modifiedIndex = Some (j - 1)\<rparr> # result) \<and>
         backtrack dmp originalLines modifiedLines dp i j result =
           backtrack dmp originalLines modifiedLines dp (i - 1) (j - 1)
             (\<lparr>type = Modify, originalLine = Some (originalLines ! (i - 1)),
               modifiedLine = Some (modifiedLines ! (j - 1)),
               originalIndex = Some (i - 1), modifiedIndex = Some (j - 1)\<rparr> # result) \<and>
         (\<forall>res. backtrack dmp originalLines modifiedLines dp i j result = Some res \<longrightarrow>
            suffix
              (\<lparr>type = Modify, originalLine = Some (originalLines ! (i - 1)),
                modifiedLine = Some (modifiedLines ! (j - 1)),
                originalIndex = Some (i - 1), modifiedIndex = Some (j - 1)\<rparr> # result) res) \<and>
         (dp_fill originalLines modifiedLines
            (dp_init (length originalLines) (length modifiedLines)) 1
            (length originalLines) (length modifiedLines) = Some dp \<and>
          backtrack_reaches dmp originalLines modifiedLines dp (i, j, result) \<longrightarrow>
            (\<exists>res. computeLineDiff dmp originalLines modifiedLines = Some res \<and>
               suffix
                 (\<lparr>type = Modify, originalLine = Some (originalLines ! (i - 1)),
                   modifiedLine = Some (modifiedLines ! (j - 1)),
                   originalIndex = Some (i - 1), modifiedIndex = Some (j - 1)\<rparr> # result) res))"
proof -
  let ?e = "\<lparr>type = Modify, originalLine = Some (originalLines ! (i - 1)),
              modifiedLine = Some (modifiedLines ! (j - 1)),
              originalIndex = Some (i - 1), modifiedIndex = Some (j - 1)\<rparr>"
  have a: "elem_at originalLines (i - 1) = Some (originalLines ! (i - 1))"
    and b: "elem_at modifiedLines (j - 1) = Some (modifiedLines ! (j - 1))"
    using assms(1-4) by (simp_all add: elem_at_def)
  have s: "backtrack_step dmp originalLines modifiedLines dp i j result =
             Some (i - 1, j - 1, ?e # result)"
    unfolding backtrack_step_def a b using assms by simp
  have "backtrack dmp originalLines modifiedLines dp i j result =
          (case backtrack_step dmp originalLines modifiedLines dp i j result of
             None \<Rightarrow> None
           | Some (i', j', result') \<Rightarrow> backtrack dmp originalLines modifiedLines dp i' j' result')"
    using assms(1) backtrack.simps [of dmp originalLines modifiedLines dp i j result] by simp
  with s have loop: "backtrack dmp originalLines modifiedLines dp i j result =
      backtrack dmp originalLines modifiedLines dp (i - 1) (j - 1) (?e # result)"
    by simp
  have kept: "suffix (?e # result) res"
    if "backtrack dmp originalLines modifiedLines dp i j result = Some res" for res
    using that unfolding loop by (rule backtrack_suffix)
  have whole: "\<exists>res. computeLineDiff dmp originalLines modifiedLines = Some res \<and>
                 suffix (?e # result) res"
    if fill: "dp_fill originalLines modifiedLines
            (dp_init (length originalLines) (length modifiedLines)) 1
            (length originalLines) (length modifiedLines) = Some dp"
      and reach: "backtrack_reaches dmp originalLines modifiedLines dp (i, j, result)"
  proof -
    obtain res where res: "computeLineDiff dmp originalLines modifiedLines = Some res"
      using computeLineDiff_inv by blast
    have "computeLineDiff dmp originalLines modifiedLines =
            backtrack dmp originalLines modifiedLines dp
              (length originalLines) (length modifiedLines) []"
      unfolding computeLineDiff_def Let_def fill by simp
    also have "\<dots> = backtrack dmp originalLines modifiedLines dp i j result"
      using backtrack_reaches_same [OF reach] by simp
    finally have "backtrack dmp originalLines modifiedLines dp i j result = Some res"
      using res by simp
    from kept [OF this] res show ?thesis
      by blast
  qed
  from s loop kept whole show ?thesis
    by blast
qed

lemma dp_abc_abd:
  "dp_fill [''abc'', ''abd''] [''abc''] (dp_init 2 1) 1 2 1 = Some [[0, 0], [0, 1], [0, 1]]"
  by code_simp

lemma sim_abd_abc: "calculateSimilarity affix_dmp ''abd'' ''abc'' = 1 / 2"
  by code_simp

lemma trim_abd_abc: "trim ''abd'' \<noteq> trim ''abc''"
  by code_simp

lemma abc_abd_run:
  "computeLineDiff affix_dmp [''abc'', ''abd''] [''abc''] =
     Some [\<lparr>type = Delete, originalLine = Some ''abc'', modifiedLine = None,
             originalIndex = Some 0, modifiedIndex = None\<rparr>,
           \<lparr>type = Modify, originalLine = Some ''abd'', modifiedLine = Some ''abc'',
             originalIndex = Some 1, modifiedIndex = Some 0\<rparr>]"
  by code_simp

theorem backtrack_step_modify_witness:
  "dp_fill [''abc'', ''abd''] [''abc''] (dp_init 2 1) 1 2 1 = Some [[0, 0], [0, 1], [0, 1]] \<and>
   dp_read [[0, 0], [0, 1], [0, 1]] 1 1 = Some 1 \<and>
   dp_read [[0, 0], [0, 1], [0, 1]] 2 0 = Some 0 \<and>
   calculateSimilarity affix_dmp ''abd'' ''abc'' = 1 / 2 \<and>
   backtrack_step affix_dmp [''abc'', ''abd''] [''abc''] [[0, 0], [0, 1], [0, 1]] 2 1 [] =
     Some (1, 0, [\<lparr>type = Modify, originalLine = Some ''abd'', modifiedLine = Some ''abc'',
                    originalIndex = Some 1, modifiedIndex = Some 0\<rparr>]) \<and>
   backtrack_reaches affix_dmp [''abc'', ''abd''] [''abc''] [[0, 0], [0, 1], [0, 1]] (2, 1, []) \<and>
   (\<exists>res. computeLineDiff affix_dmp [''abc'', ''abd''] [''abc''] = Some res \<and>
      suffix [\<lparr>type = Modify, originalLine = Some ''abd'', modifiedLine = Some ''abc'',
                originalIndex = Some 1, modifiedIndex = Some 0\<rparr>] res \<and>
      res = [\<lparr>type = Delete, originalLine = Some ''abc'', modifiedLine = None,
               originalIndex = Some 0, modifiedIndex = None\<rparr>,
             \<lparr>type = Modify, originalLine = Some ''abd'', modifiedLine = Some ''abc'',
               originalIndex = Some 1, modifiedIndex = Some 0\<rparr>])"
proof -
  let ?ol = "[''abc'', ''abd'']" and ?ml = "[''abc'']" and ?dp = "[[0, 0], [0, 1], [0, 1 :: nat]]"
  have sim: "calculateSimilarity affix_dmp (?ol ! (2 - 1)) (?ml ! (1 - 1)) > 3 / 10"
    by (simp add: sim_abd_abc)
  have tr: "trim (?ol ! (2 - 1)) \<noteq> trim (?ml ! (1 - 1))"
    using trim_abd_abc by simp
  have len: "length ?ol = 2" "length ?ml = 1"
    by simp_all
  have reach: "backtrack_reaches affix_dmp ?ol ?ml ?dp (2, 1, [])"
    using backtrack_reaches.start [of affix_dmp ?ol ?ml ?dp] unfolding len .
  have fill: "dp_fill ?ol ?ml (dp_init (length ?ol) (length ?ml)) 1 (length ?ol) (length ?ml)
                = Some ?dp"
    unfolding len by (rule dp_abc_abd)
  note inst = backtrack_step_modify [of 2 1 ?ol ?ml affix_dmp ?dp "[]", OF _ _ _ _ tr sim]
  from inst have step: "backtrack_step affix_dmp ?ol ?ml ?dp 2 1 [] =
     Some (1, 0, [\<lparr>type = Modify, originalLine = Some ''abd'', modifiedLine = Some ''abc'',
                    originalIndex = Some 1, modifiedIndex = Some 0\<rparr>])"
    by simp
  from inst fill reach obtain res
    where res: "computeLineDiff affix_dmp ?ol ?ml = Some res"
      and suf: "suffix [\<lparr>type = Modify, originalLine = Some ''abd'', modifiedLine = Some ''abc'',
                originalIndex = Some 1, modifiedIndex = Some 0\<rparr>] res"
    by auto
  have reads: "dp_read ?dp 1 1 = Some 1" "dp_read ?dp 2 0 = Some 0"
    by (simp_all add: dp_read_def elem_at_def)
  from res have "res = [\<lparr>type = Delete, originalLine = Some ''abc'', modifiedLine = None,
               originalIndex = Some 0, modifiedIndex = None\<rparr>,
             \<lparr>type = Modify, originalLine = Some ''abd'', modifiedLine = Some ''abc'',
               originalIndex = Some 1, modifiedIndex = Some 0\<rparr>]"
    unfolding abc_abd_run by simp
  with res suf step reach reads dp_abc_abd sim_abd_abc show ?thesis
    by blast
qed

lemma dp_b_x: "dp_fill [''b''] [''x''] (dp_init 1 1) 1 1 1 = Some [[0, 0], [0, 0]]"
  by code_simp

lemma sim_b_x: "calculateSimilarity affix_dmp ''b'' ''x'' = 0"
  by code_simp

lemma trim_b_x: "trim ''b'' \<noteq> trim ''x''"
  by code_simp

text \<open>
  Claim C3 as stated (ties favor Delete) fails. For the documents \<open>[''b'']\<close> and
  \<open>[''x'']\<close> the table is all zero, the lines differ after trimming and their similarity
  is \<open>0\<close> (as it is under every engine with the reconstruction property, by
  \<open>calculateSimilarity_disjoint\<close>); the two table values compared are equal, and the
  pass at \<open>i = j = 1\<close> emits an Insert and decrements the modified index, not the
  original one.
\<close>

theorem backtrack_step_tie_counterexample:
  "dp_fill [''b''] [''x''] (dp_init 1 1) 1 1 1 = Some [[0, 0], [0, 0]] \<and>
   trim ''b'' \<noteq> trim ''x'' \<and>
   calculateSimilarity affix_dmp ''b'' ''x'' \<le> 3 / 10 \<and>
   dp_read [[0, 0], [0, 0]] 0 1 = dp_read [[0, 0], [0, 0]] 1 0 \<and>
   backtrack_step affix_dmp [''b''] [''x''] [[0, 0], [0, 0]] 1 1 [] =
     Some (1, 0, [\<lparr>type = Insert, originalLine = None, modifiedLine = Some ''x'',
                    originalIndex = None, modifiedIndex = Some 0\<rparr>]) \<and>
   backtrack_step affix_dmp [''b''] [''x''] [[0, 0], [0, 0]] 1 1 [] \<noteq>
     Some (0, 1, [\<lparr>type = Delete, originalLine = Some ''b'', modifiedLine = None,
                    originalIndex = Some 0, modifiedIndex = None\<rparr>])"
proof -
  have "backtrack_step affix_dmp [''b''] [''x''] [[0, 0], [0, 0]] 1 1 [] =
     Some (1, 0, [\<lparr>type = Insert, originalLine = None, modifiedLine = Some ''x'',
                    originalIndex = None, modifiedIndex = Some 0\<rparr>])"
    by code_simp
  moreover have "dp_read [[0, 0], [0, 0]] 0 1 = dp_read [[0, 0], [0, 0]] 1 0"
    by (simp add: dp_read_def elem_at_def)
  ultimately show ?thesis
    using dp_b_x trim_b_x sim_b_x by simp
qed

text \<open>
  Claim C3, amended (ties favor Insert). In a pass of the loop with both indices
  positive, if the two candidate lines are not equal after trimming and their
  similarity is at most \<open>0.3\<close>, the pass emits a Delete and decrements the original
  index exactly when \<^verbatim>\<open>dp[i - 1][j]\<close> is strictly greater than \<^verbatim>\<open>dp[i][j - 1]\<close>;
  otherwise, in particular when the two values are equal, it emits an Insert and
  decrements the modified index.
\<close>

theorem backtrack_step_dissimilar:
  assumes "0 < i" "0 < j" "i \<le> length originalLines" "j \<le> length modifiedLines"
    and "trim (originalLines ! (i - 1)) \<noteq> trim (modifiedLines ! (j - 1))"
    and "calculateSimilarity dmp (originalLines ! (i - 1)) (modifiedLines ! (j - 1)) \<le> 3 / 10"
    and "dp_read dp (i - 1) j = Some u" "dp_read dp i (j - 1) = Some l"
  shows "backtrack_step dmp originalLines modifiedLines dp i j result =
           Some (if u > l
                 then (i - 1, j,
                   \<lparr>type = Delete, originalLine = Some (originalLines ! (i - 1)),
                    modifiedLine = None,
                    originalIndex = Some (i - 1), modifiedIndex = None\<rparr> # result)
                 else (i, j - 1,
                   \<lparr>type = Insert, originalLine = None,
                    modifiedLine = Some (modifiedLines ! (j - 1)),
                    originalIndex = None, modifiedIndex = Some (j - 1)\<rparr> # result))"
proof -
  have a: "elem_at originalLines (i - 1) = Some (originalLines ! (i - 1))"
    and b: "elem_at modifiedLines (j - 1) = Some (modifiedLines ! (j - 1))"
    using assms(1-4) by (simp_all add: elem_at_def)
  show ?thesis
    unfolding backtrack_step_def a b assms(7,8) using assms(1,2,5,6) by simp
qed

theorem backtrack_step_dissimilar_witness:
  "dp_read [[0, 0], [0, 0]] 0 1 = Some 0 \<and>
   dp_read [[0, 0], [0, 0]] 1 0 = Some 0 \<and>
   calculateSimilarity affix_dmp ''b'' ''x'' = 0 \<and>
   backtrack_step affix_dmp [''b''] [''x''] [[0, 0], [0, 0]] 1 1 [] =
     Some (1, 0, [\<lparr>type = Insert, originalLine = None, modifiedLine = Some ''x'',
                    originalIndex = None, modifiedIndex = Some 0\<rparr>])"
proof -
  have u: "dp_read [[0, 0], [0, 0]] (1 - 1) 1 = Some 0"
    and l: "dp_read [[0, 0], [0, 0]] 1 (1 - 1) = Some 0"
    by (simp_all add: dp_read_def elem_at_def)
  have t: "trim ([''b''] ! (1 - 1)) \<noteq> trim ([''x''] ! (1 - 1))"
    using trim_b_x by simp
  have s: "calculateSimilarity affix_dmp ([''b''] ! (1 - 1)) ([''x''] ! (1 - 1)) \<le> 3 / 10"
    by (simp add: sim_b_x)
  have "backtrack_step affix_dmp [''b''] [''x''] [[0, 0], [0, 0]] 1 1 [] =
     Some (1, 0, [\<lparr>type = Insert, originalLine = None, modifiedLine = Some ''x'',
                    originalIndex = None, modifiedIndex = Some 0\<rparr>])"
    using backtrack_step_dissimilar
      [of 1 1 "[''b'']" "[''x'']" affix_dmp "[[0, 0], [0, 0]]" 0 0 "[]", OF _ _ _ _ t s u l]
    by simp
  with u l show ?thesis
    by (simp add: sim_b_x)
qed

section \<open>The similarity of two empty strings\<close>

lemma count_lengths_empty_texts:
  "\<forall>(t, x) \<in> set ds. x = [] \<Longrightarrow> count_lengths ds acc = acc"
  by (induction ds acc rule: count_lengths.induct) auto

lemma reconstructs_empty:
  assumes "reconstructs ds [] []"
  shows "\<forall>(t, x) \<in> set ds. x = []"
proof (clarify)
  fix t x
  assume in_ds: "(t, x) \<in> set ds"
  with assms have "t = - 1 \<or> t = 0 \<or> t = 1"
    by (auto simp: reconstructs_def list_all_iff)
  moreover have "x = []" if "t = 0 \<or> t = - 1"
  proof -
    from that in_ds have "x \<in> set (map snd (filter (\<lambda>(t, x). t = 0 \<or> t = - 1) ds))"
      by force
    moreover from assms have "concat (map snd (filter (\<lambda>(t, x). t = 0 \<or> t = - 1) ds)) = []"
      by (simp add: reconstructs_def)
    ultimately show ?thesis
      by (simp only: concat_eq_Nil_conv)
  qed
  moreover have "x = []" if "t = 1"
  proof -
    from that in_ds have "x \<in> set (map snd (filter (\<lambda>(t, x). t = 0 \<or> t = 1) ds))"
      by force
    moreover from assms have "concat (map snd (filter (\<lambda>(t, x). t = 0 \<or> t = 1) ds)) = []"
      by (simp add: reconstructs_def)
    ultimately show ?thesis
      by (simp only: concat_eq_Nil_conv)
  qed
  ultimately show "x = []"
    by blast
qed

text \<open>
  Claim C2 as stated (\<^verbatim>\<open>calculateSimilarity("", "")\<close> is \<open>1\<close>) fails: the edit script of
  two empty strings is empty, \<^verbatim>\<open>totalLength\<close> is \<open>0\<close> and the guard
  \<^verbatim>\<open>totalLength > 0\<close> selects \<open>0\<close>.
\<close>

theorem calculateSimilarity_empty_counterexample:
  "char_diff affix_dmp [] [] = [] \<and>
   calculateSimilarity affix_dmp [] [] = 0 \<and>
   calculateSimilarity affix_dmp [] [] \<noteq> 1"
  by code_simp

text \<open>
  Claim C2, amended. When both input strings are empty, \<^verbatim>\<open>calculateSimilarity\<close>
  returns \<open>0\<close>, for every diff engine whose edit script has the reconstruction
  property: all its texts are empty, so \<^verbatim>\<open>totalLength\<close> is \<open>0\<close>.
\<close>

theorem calculateSimilarity_empty:
  assumes "reconstructs (char_diff dmp [] []) [] []"
  shows "calculateSimilarity dmp [] [] = 0"
proof -
  have "count_lengths (char_diff dmp [] []) (0, 0) = (0, 0)"
    by (rule count_lengths_empty_texts [OF reconstructs_empty [OF assms]])
  then show ?thesis
    by (simp add: calculateSimilarity_def)
qed

theorem calculateSimilarity_empty_witness:
  "reconstructs (char_diff affix_dmp [] []) [] [] \<and> calculateSimilarity affix_dmp [] [] = 0"
proof -
  have r: "reconstructs (char_diff affix_dmp [] []) [] []"
    by code_simp
  with calculateSimilarity_empty [OF r] show ?thesis
    by simp
qed

section \<open>The editor's highlighting against the alignment\<close>

lemma editor_loop_lookup:
  "editor_loop dmp cl ol n i ds k =
     (if i \<le> k \<and> k < n \<and> line_or_empty cl k \<noteq> line_or_empty ol k
      then Some (char_diff dmp (line_or_empty cl k) (line_or_empty ol k))
      else ds k)"
proof (induction dmp cl ol n i ds rule: editor_loop.induct)
  case (1 dmp cl ol n i ds)
  show ?case
  proof (cases "i < n")
    case True
    show ?thesis
      by (subst editor_loop.simps) (use True "1.IH" [OF True refl refl] in \<open>auto simp: Let_def\<close>)
  next
    case False
    show ?thesis
      by (subst editor_loop.simps) (use False in auto)
  qed
qed

lemma editor_lineDiffs_lookup:
  assumes "value \<noteq> []" "otherCode \<noteq> []"
  shows "editor_lineDiffs dmp value otherCode k =
     (if k < max (length (split_lines value)) (length (split_lines otherCode)) \<and>
         line_or_empty (split_lines value) k \<noteq> line_or_empty (split_lines otherCode) k
      then Some (char_diff dmp (line_or_empty (split_lines value) k)
                   (line_or_empty (split_lines otherCode) k))
      else None)"
  using assms by (simp add: editor_lineDiffs_def Let_def editor_loop_lookup)

lemma line_or_empty_nth: "k < length ls \<Longrightarrow> line_or_empty ls k = ls ! k"
  by (simp add: line_or_empty_def elem_at_def)

lemma line_or_empty_differs:
  "k < length ls \<Longrightarrow> ls ! k \<noteq> line_or_empty ls' k \<Longrightarrow>
   k < max (length ls) (length ls') \<and> line_or_empty ls k \<noteq> line_or_empty ls' k"
  by (simp add: line_or_empty_nth)

lemma entry_of_Modify_fields:
  assumes "entry_of dmp ol ml e" "type e = Modify"
  shows "\<exists>k l. k < length ol \<and> l < length ml \<and> ol ! k \<noteq> ml ! l \<and>
           originalLine e = Some (ol ! k) \<and> modifiedLine e = Some (ml ! l) \<and>
           originalIndex e = Some k \<and> modifiedIndex e = Some l"
  using assms unfolding entry_of_def by auto

lemma zzz_run:
  "computeLineDiff affix_dmp (split_lines ''foo();'') (split_lines ''zzz\<newline>foo(x);'') =
     Some [\<lparr>type = Insert, originalLine = None, modifiedLine = Some ''zzz'',
             originalIndex = None, modifiedIndex = Some 0\<rparr>,
           \<lparr>type = Modify, originalLine = Some ''foo();'', modifiedLine = Some ''foo(x);'',
             originalIndex = Some 0, modifiedIndex = Some 1\<rparr>]"
  by code_simp

lemma editor_zzz_left:
  "editor_lineDiffs affix_dmp ''foo();'' ''zzz\<newline>foo(x);'' 0 =
     Some [(- 1, ''foo();''), (1, ''zzz'')]"
  by (subst editor_lineDiffs_lookup) code_simp+

lemma editor_zzz_right:
  "editor_lineDiffs affix_dmp ''zzz\<newline>foo(x);'' ''foo();'' 1 = Some [(- 1, ''foo(x);'')]"
  by (subst editor_lineDiffs_lookup) code_simp+

lemma char_diff_foo:
  "char_diff affix_dmp ''foo();'' ''foo(x);'' = [(0, ''foo(''), (1, ''x''), (0, '');'')]"
  "char_diff affix_dmp ''foo(x);'' ''foo();'' = [(0, ''foo(''), (- 1, ''x''), (0, '');'')]"
  by code_simp+

text \<open>
  Claim C9 as stated fails. The editor does not read the alignment: it diffs line \<open>k\<close>
  of its own text against line \<open>k\<close> of the other text. For the documents
  \<^verbatim>\<open>foo();\<close> and \<^verbatim>\<open>zzz\nfoo(x);\<close> the alignment pairs original line \<open>0\<close> with modified
  line \<open>1\<close> in a Modify entry; the left editor highlights line \<open>0\<close> with the diff of
  \<^verbatim>\<open>foo();\<close> against \<^verbatim>\<open>zzz\<close>, the right editor highlights line \<open>1\<close> with the diff of
  \<^verbatim>\<open>foo(x);\<close> against the empty string, and neither is the diff of the paired lines.
\<close>

theorem editor_lineDiffs_counterexample:
  "computeLineDiff affix_dmp (split_lines ''foo();'') (split_lines ''zzz\<newline>foo(x);'') =
     Some [\<lparr>type = Insert, originalLine = None, modifiedLine = Some ''zzz'',
             originalIndex = None, modifiedIndex = Some 0\<rparr>,
           \<lparr>type = Modify, originalLine = Some ''foo();'', modifiedLine = Some ''foo(x);'',
             originalIndex = Some 0, modifiedIndex = Some 1\<rparr>] \<and>
   char_diff affix_dmp ''foo();'' ''foo(x);'' = [(0, ''foo(''), (1, ''x''), (0, '');'')] \<and>
   char_diff affix_dmp ''foo(x);'' ''foo();'' = [(0, ''foo(''), (- 1, ''x''), (0, '');'')] \<and>
   editor_lineDiffs affix_dmp ''foo();'' ''zzz\<newline>foo(x);'' 0 =
     Some [(- 1, ''foo();''), (1, ''zzz'')] \<and>
   editor_lineDiffs affix_dmp ''zzz\<newline>foo(x);'' ''foo();'' 1 = Some [(- 1, ''foo(x);'')] \<and>
   editor_lineDiffs affix_dmp ''foo();'' ''zzz\<newline>foo(x);'' 0 \<noteq>
     Some (char_diff affix_dmp ''foo();'' ''foo(x);'') \<and>
   editor_lineDiffs affix_dmp ''zzz\<newline>foo(x);'' ''foo();'' 1 \<noteq>
     Some (char_diff affix_dmp ''foo(x);'' ''foo();'')"
  unfolding zzz_run editor_zzz_left editor_zzz_right char_diff_foo by simp

text \<open>
  Claim C9, amended. When both documents are non-empty strings, every Modify entry of
  the alignment has an original line \<open>a\<close> at an index \<open>k\<close> and a different modified line
  \<open>b\<close> at an index \<open>l\<close>; the left editor highlights its line \<open>k\<close> with the character
  diff of \<open>a\<close> against line \<open>k\<close> of the modified document, and the right editor its line
  \<open>l\<close> with the character diff of \<open>b\<close> against line \<open>l\<close> of the original document (a
  missing line reads as empty, and equal lines get no diff). This is the character
  diff between the entry's own two lines whenever the line at the same index of the
  other document is the entry's other line: of \<open>a\<close> against \<open>b\<close> on the left when line
  \<open>k\<close> of the modified document is \<open>b\<close>, of \<open>b\<close> against \<open>a\<close> on the right when line \<open>l\<close>
  of the original document is \<open>a\<close>. Both hold when the entry pairs lines at the same
  index, \<open>k = l\<close>.
\<close>

theorem editor_lineDiffs_modify:
  assumes "computeLineDiff dmp (split_lines originalText) (split_lines modifiedText) = Some res"
    and "e \<in> set res" "type e = Modify"
    and "originalText \<noteq> []" "modifiedText \<noteq> []"
  shows "\<exists>a b k l.
     originalLine e = Some a \<and> modifiedLine e = Some b \<and>
     originalIndex e = Some k \<and> modifiedIndex e = Some l \<and> a \<noteq> b \<and>
     editor_lineDiffs dmp originalText modifiedText k =
       (if a = line_or_empty (split_lines modifiedText) k then None
        else Some (char_diff dmp a (line_or_empty (split_lines modifiedText) k))) \<and>
     editor_lineDiffs dmp modifiedText originalText l =
       (if b = line_or_empty (split_lines originalText) l then None
        else Some (char_diff dmp b (line_or_empty (split_lines originalText) l))) \<and>
     (line_or_empty (split_lines modifiedText) k = b \<longrightarrow>
        editor_lineDiffs dmp originalText modifiedText k = Some (char_diff dmp a b)) \<and>
     (line_or_empty (split_lines originalText) l = a \<longrightarrow>
        editor_lineDiffs dmp modifiedText originalText l = Some (char_diff dmp b a)) \<and>
     (k = l \<longrightarrow>
        editor_lineDiffs dmp originalText modifiedText k = Some (char_diff dmp a b) \<and>
        editor_lineDiffs dmp modifiedText originalText k = Some (char_diff dmp b a))"
proof -
  let ?ol = "split_lines originalText" and ?ml = "split_lines modifiedText"
  from computeLineDiff_inv [of dmp ?ol ?ml] assms(1)
  have "backtrack_inv dmp ?ol ?ml 0 0 res"
    by auto
  with assms(2) have "entry_of dmp ?ol ?ml e"
    by (simp add: backtrack_inv_def)
  from entry_of_Modify_fields [OF this assms(3)]
  obtain k l where k: "k < length ?ol" and l: "l < length ?ml" and ne: "?ol ! k \<noteq> ?ml ! l"
    and fields: "originalLine e = Some (?ol ! k)" "modifiedLine e = Some (?ml ! l)"
      "originalIndex e = Some k" "modifiedIndex e = Some l"
    by blast
  have left: "editor_lineDiffs dmp originalText modifiedText k =
       (if ?ol ! k = line_or_empty ?ml k then None
        else Some (char_diff dmp (?ol ! k) (line_or_empty ?ml k)))"
    using k by (auto simp: editor_lineDiffs_lookup [OF assms(4,5)] line_or_empty_nth less_max_iff_disj)
  have right: "editor_lineDiffs dmp modifiedText originalText l =
       (if ?ml ! l = line_or_empty ?ol l then None
        else Some (char_diff dmp (?ml ! l) (line_or_empty ?ol l)))"
    using l by (auto simp: editor_lineDiffs_lookup [OF assms(5,4)] line_or_empty_nth less_max_iff_disj)
  have left_pair: "editor_lineDiffs dmp originalText modifiedText k =
        Some (char_diff dmp (?ol ! k) (?ml ! l))"
    if "line_or_empty ?ml k = ?ml ! l"
    using that left ne by simp
  have right_pair: "editor_lineDiffs dmp modifiedText originalText l =
        Some (char_diff dmp (?ml ! l) (?ol ! k))"
    if "line_or_empty ?ol l = ?ol ! k"
    using that right ne by simp
  have same: "editor_lineDiffs dmp originalText modifiedText k = Some (char_diff dmp (?ol ! k) (?ml ! l)) \<and>
        editor_lineDiffs dmp modifiedText originalText k = Some (char_diff dmp (?ml ! l) (?ol ! k))"
    if "k = l"
    using that left right k l ne by (simp add: line_or_empty_nth)
  from fields ne left right left_pair right_pair same show ?thesis
    by blast
qed

lemma foo_run:
  "computeLineDiff affix_dmp (split_lines ''foo();'') (split_lines ''foo(x);'') =
     Some [\<lparr>type = Modify, originalLine = Some ''foo();'', modifiedLine = Some ''foo(x);'',
             originalIndex = Some 0, modifiedIndex = Some 0\<rparr>]"
  by code_simp

lemma repeated_run:
  "computeLineDiff affix_dmp (split_lines ''foo();\<newline>foo();'')
       (split_lines ''foo(x);\<newline>foo(x);\<newline>foo(x);'') =
     Some [\<lparr>type = Insert, originalLine = None, modifiedLine = Some ''foo(x);'',
             originalIndex = None, modifiedIndex = Some 0\<rparr>,
           \<lparr>type = Modify, originalLine = Some ''foo();'', modifiedLine = Some ''foo(x);'',
             originalIndex = Some 0, modifiedIndex = Some 1\<rparr>,
           \<lparr>type = Modify, originalLine = Some ''foo();'', modifiedLine = Some ''foo(x);'',
             originalIndex = Some 1, modifiedIndex = Some 2\<rparr>]"
  by code_simp

lemma repeated_line:
  "line_or_empty (split_lines ''foo(x);\<newline>foo(x);\<newline>foo(x);'') 1 = ''foo(x);''"
  by code_simp

theorem editor_lineDiffs_modify_witness:
  "computeLineDiff affix_dmp (split_lines ''foo();'') (split_lines ''foo(x);'') =
     Some [\<lparr>type = Modify, originalLine = Some ''foo();'', modifiedLine = Some ''foo(x);'',
             originalIndex = Some 0, modifiedIndex = Some 0\<rparr>] \<and>
   editor_lineDiffs affix_dmp ''foo();'' ''foo(x);'' 0 =
     Some (char_diff affix_dmp ''foo();'' ''foo(x);'') \<and>
   editor_lineDiffs affix_dmp ''foo(x);'' ''foo();'' 0 =
     Some (char_diff affix_dmp ''foo(x);'' ''foo();'') \<and>
   computeLineDiff affix_dmp (split_lines ''foo();\<newline>foo();'')
       (split_lines ''foo(x);\<newline>foo(x);\<newline>foo(x);'') =
     Some [\<lparr>type = Insert, originalLine = None, modifiedLine = Some ''foo(x);'',
             originalIndex = None, modifiedIndex = Some 0\<rparr>,
           \<lparr>type = Modify, originalLine = Some ''foo();'', modifiedLine = Some ''foo(x);'',
             originalIndex = Some 0, modifiedIndex = Some 1\<rparr>,
           \<lparr>type = Modify, originalLine = Some ''foo();'', modifiedLine = Some ''foo(x);'',
             originalIndex = Some 1, modifiedIndex = Some 2\<rparr>] \<and>
   editor_lineDiffs affix_dmp ''foo();\<newline>foo();'' ''foo(x);\<newline>foo(x);\<newline>foo(x);'' 1 =
     Some (char_diff affix_dmp ''foo();'' ''foo(x);'')"
proof -
  let ?e = "\<lparr>type = Modify, originalLine = Some ''foo();'', modifiedLine = Some ''foo(x);'',
             originalIndex = Some 0, modifiedIndex = Some 0\<rparr>"
  have "?e \<in> set [?e]" "type ?e = Modify" "''foo();'' \<noteq> []" "''foo(x);'' \<noteq> []"
    by simp_all
  from editor_lineDiffs_modify [OF foo_run this]
  have same: "editor_lineDiffs affix_dmp ''foo();'' ''foo(x);'' 0 =
       Some (char_diff affix_dmp ''foo();'' ''foo(x);'') \<and>
     editor_lineDiffs affix_dmp ''foo(x);'' ''foo();'' 0 =
       Some (char_diff affix_dmp ''foo(x);'' ''foo();'')"
    by auto
  let ?i = "\<lparr>type = Insert, originalLine = None, modifiedLine = Some ''foo(x);'',
             originalIndex = None, modifiedIndex = Some 0\<rparr>"
  let ?m = "\<lparr>type = Modify, originalLine = Some ''foo();'', modifiedLine = Some ''foo(x);'',
             originalIndex = Some 0, modifiedIndex = Some 1\<rparr>"
  let ?f = "\<lparr>type = Modify, originalLine = Some ''foo();'', modifiedLine = Some ''foo(x);'',
             originalIndex = Some 1, modifiedIndex = Some 2\<rparr>"
  have "?f \<in> set [?i, ?m, ?f]" "type ?f = Modify"
    "''foo();\<newline>foo();'' \<noteq> []" "''foo(x);\<newline>foo(x);\<newline>foo(x);'' \<noteq> []"
    by simp_all
  from editor_lineDiffs_modify [OF repeated_run this] repeated_line
  have "editor_lineDiffs affix_dmp ''foo();\<newline>foo();'' ''foo(x);\<newline>foo(x);\<newline>foo(x);'' 1 =
     Some (char_diff affix_dmp ''foo();'' ''foo(x);'')"
    by auto
  with same foo_run repeated_run show ?thesis
    by blast
qed

section \<open>Comparing two empty documents\<close>

lemma computeLineDiff_empty_lines:
  "computeLineDiff dmp [[]] [[]] =
     Some [\<lparr>type = Equal, originalLine = Some [], modifiedLine = Some [],
             originalIndex = Some 0, modifiedIndex = Some 0\<rparr>]"
  by (simp add: computeLineDiff_def dp_init_def dp_fill.simps dp_row.simps dp_cell_def
      dp_read_def dp_write_def elem_at_def backtrack.simps backtrack_step_def)

text \<open>
  Claim C10 (empty documents at \<^verbatim>\<open>compareCode\<close>). When \<^verbatim>\<open>originalCode\<close> and
  \<^verbatim>\<open>modifiedCode\<close> are both the empty string, each splits into the one empty line,
  and \<^verbatim>\<open>compareCode\<close> stores as \<^verbatim>\<open>lineDiffs\<close> the single Equal entry pairing two
  empty lines at index \<open>0\<close>, not the empty sequence, and as \<^verbatim>\<open>diffLines\<close> the empty
  list.
\<close>

theorem compareCode_empty:
  "split_lines [] = [[]] \<and>
   lineDiffs (compareCode dmp now_id now_ts (st\<lparr>originalCode := [], modifiedCode := []\<rparr>)) =
     [\<lparr>type = Equal, originalLine = Some [], modifiedLine = Some [],
       originalIndex = Some 0, modifiedIndex = Some 0\<rparr>] \<and>
   lineDiffs (compareCode dmp now_id now_ts (st\<lparr>originalCode := [], modifiedCode := []\<rparr>)) \<noteq> [] \<and>
   diffLines (compareCode dmp now_id now_ts (st\<lparr>originalCode := [], modifiedCode := []\<rparr>)) = []"
  by (simp add: compareCode_def computeLineDiff_empty_lines saveToHistory_def trim_def)

end
